theory Spec2Isabelle
  imports
    Main
    "HOL-Library.Multiset"
    "HOL-Library.Sublist"
    "HOL-Library.Char_ord"
    "HOL-Library.List_Lexorder"
begin

section \<open>Oncoprint data generation: the notebook as HOL functions\<close>

text \<open>
  The notebook \<^verbatim>\<open>6.generate-oncoprint-data.ipynb\<close> reads tab-separated variant tables
  with pandas, tests for every feature of a list whether it occurs in a column of each
  table, and writes sample-by-feature matrices. The model below follows the cells of the
  notebook. What Python and pandas do beyond returning a value is explicit: an exception
  is a value \<open>Inl e\<close> of a sum type, the order in which \<^verbatim>\<open>os.listdir\<close> enumerates a
  directory is the order of the list that models the directory, and the order in which a
  Python \<^verbatim>\<open>set\<close> is iterated is a parameter.
\<close>

subsection \<open>Python strings\<close>

text \<open>
  \<^verbatim>\<open>s.replace(old, new)\<close> replaces every non-overlapping occurrence of \<open>old\<close>, scanning
  from the left. \<open>replace_from k\<close> is the scan with \<open>k\<close> characters of a matched
  occurrence still to be skipped. For the empty \<open>old\<close> Python puts \<open>new\<close> before every
  character and at the end.
\<close>

fun replace_from :: "nat \<Rightarrow> string \<Rightarrow> string \<Rightarrow> string \<Rightarrow> string" where
  "replace_from k [] old new = []"
| "replace_from (Suc k) (c # cs) old new = replace_from k cs old new"
| "replace_from 0 (c # cs) old new =
     (if prefix old (c # cs) then new @ replace_from (length old - 1) cs old new
      else c # replace_from 0 cs old new)"

definition str_replace :: "string \<Rightarrow> string \<Rightarrow> string \<Rightarrow> string" where
  "str_replace s old new =
     (if old = [] then new @ concat (map (\<lambda>c. c # new) s) else replace_from 0 s old new)"

text \<open>\<^verbatim>\<open>s.split('_')[0]\<close>: the part of \<open>s\<close> before its first underscore, all of \<open>s\<close>
  when it has none.\<close>

definition split_first :: "string \<Rightarrow> string" where
  "split_first s = takeWhile (\<lambda>c. c \<noteq> CHR ''_'') s"

subsection \<open>Tables\<close>

text \<open>
  A data frame is its columns, in order: a label and the values of the column, one per
  row. All cell values are strings, as the annotation fields of the variant tables are.
  A file on disk either parses as a table or does not; \<^verbatim>\<open>pd.read_table\<close> raises on a
  file with no columns, and with \<^verbatim>\<open>index_col=0\<close> it turns the first column into the row
  index, which is then no longer among the labelled columns.
\<close>

type_synonym dataframe = "(string \<times> string list) list"

datatype table_file = Unparsable | Tsv dataframe

datatype failure =
    FileNotFoundError | ParserError | EmptyDataError | KeyError string
  | UndefinedVariableError string

fun read_table :: "bool \<Rightarrow> table_file \<Rightarrow> failure + dataframe" where
  "read_table index_col0 Unparsable = Inl ParserError"
| "read_table index_col0 (Tsv []) = Inl EmptyDataError"
| "read_table True (Tsv (c # cs)) = Inr cs"
| "read_table False (Tsv (c # cs)) = Inr (c # cs)"

text \<open>\<^verbatim>\<open>df[name]\<close> raises \<^verbatim>\<open>KeyError\<close> when no column has the label.\<close>

definition column :: "dataframe \<Rightarrow> string \<Rightarrow> failure + string list" where
  "column df name = (case map_of df name of None \<Rightarrow> Inl (KeyError name) | Some vs \<Rightarrow> Inr vs)"

text \<open>\<^verbatim>\<open>df[mask]\<close> keeps the rows at which the boolean mask is true, in every column.\<close>

definition select_rows :: "bool list \<Rightarrow> dataframe \<Rightarrow> dataframe" where
  "select_rows keep df = map (\<lambda>(name, vs). (name, map snd (filter fst (zip keep vs)))) df"

text \<open>\<^verbatim>\<open>df[df[name] != '.']\<close>\<close>

definition drop_sentinel :: "string \<Rightarrow> dataframe \<Rightarrow> failure + dataframe" where
  "drop_sentinel name df =
     (case column df name of
        Inl e \<Rightarrow> Inl e
      | Inr vs \<Rightarrow> Inr (select_rows (map (\<lambda>v. v \<noteq> ''.'') vs) df))"

subsection \<open>The matrix builder \<^verbatim>\<open>process_variants\<close>\<close>

datatype cell = Num int | Str string

text \<open>
  The list comprehension \<^verbatim>\<open>[yes if x in df[col].tolist() else no for x in focus_variants]\<close>.
  The column is looked up once per feature, so an absent column raises only when there
  is a feature to test.
\<close>

fun membership :: "dataframe \<Rightarrow> string \<Rightarrow> cell \<Rightarrow> cell \<Rightarrow> string list \<Rightarrow> failure + cell list" where
  "membership df col yes no [] = Inr []"
| "membership df col yes no (x # xs) =
     (case column df col of
        Inl e \<Rightarrow> Inl e
      | Inr vals \<Rightarrow>
          (case membership df col yes no xs of
             Inl e \<Rightarrow> Inl e
           | Inr cs \<Rightarrow> Inr ((if x \<in> set vals then yes else no) # cs)))"

definition variant_class :: "bool \<Rightarrow> dataframe \<Rightarrow> string list \<Rightarrow> failure + cell list" where
  "variant_class process_cosmic variant_sub_df focus_variants =
     (if process_cosmic
      then membership variant_sub_df ''cosmic70'' (Num 1) (Num 0) focus_variants
      else membership variant_sub_df ''Gene.refGene'' (Str ''MUT;'') (Str '''') focus_variants)"

text \<open>
  The sample identifier of a file. The stripped name is computed first; with an
  \<open>id_updater\<close> it is then overwritten by a replacement made in \<open>variant_file\<close>
  itself, and a prefix token that is not a key of the dictionary raises.
\<close>

definition sample_id :: "string \<Rightarrow> (string \<rightharpoonup> string) option \<Rightarrow> string \<Rightarrow> failure + string" where
  "sample_id strip_text id_updater variant_file =
     (let stripped = str_replace variant_file strip_text ''''
      in case id_updater of
           None \<Rightarrow> Inr stripped
         | Some upd \<Rightarrow>
             (case upd (split_first variant_file) of
                None \<Rightarrow> Inl (KeyError (split_first variant_file))
              | Some v \<Rightarrow> Inr (str_replace variant_file (split_first variant_file) v)))"

text \<open>The body of the loop, for one directory entry: the row of the file and its identifier.\<close>

definition process_file ::
  "string list \<Rightarrow> string \<Rightarrow> bool \<Rightarrow> (string \<rightharpoonup> string) option \<Rightarrow> string \<times> table_file
     \<Rightarrow> failure + (string \<times> cell list)" where
  "process_file focus_variants strip_text process_cosmic id_updater entry =
     (case read_table True (snd entry) of
        Inl e \<Rightarrow> Inl e
      | Inr variant_df \<Rightarrow>
     (case drop_sentinel ''cosmic70'' variant_df of
        Inl e \<Rightarrow> Inl e
      | Inr variant_sub_df \<Rightarrow>
     (case variant_class process_cosmic variant_sub_df focus_variants of
        Inl e \<Rightarrow> Inl e
      | Inr cls \<Rightarrow>
     (case sample_id strip_text id_updater (fst entry) of
        Inl e \<Rightarrow> Inl e
      | Inr sid \<Rightarrow> Inr (sid, cls)))))"

text \<open>The loop over the directory listing, with the two accumulators of the source.\<close>

fun scan_files ::
  "string list \<Rightarrow> string \<Rightarrow> bool \<Rightarrow> (string \<rightharpoonup> string) option \<Rightarrow> (string \<times> table_file) list
     \<Rightarrow> cell list list \<Rightarrow> string list \<Rightarrow> failure + (cell list list \<times> string list)" where
  "scan_files fv st pc upd [] variant_assign case_ids = Inr (variant_assign, case_ids)"
| "scan_files fv st pc upd (entry # rest) variant_assign case_ids =
     (case process_file fv st pc upd entry of
        Inl e \<Rightarrow> Inl e
      | Inr (sid, cls) \<Rightarrow>
          scan_files fv st pc upd rest (variant_assign @ [cls]) (case_ids @ [sid]))"

text \<open>
  The output frame: its column labels and its rows, each with its index label. The index
  of a pandas frame may hold a label more than once. \<^verbatim>\<open>sort_index()\<close> orders the rows by
  label; rows with equal labels keep their relative order here (pandas does not promise
  an order among them, and no statement below depends on it).
\<close>

record oncoprint =
  columns :: "string list"
  rows :: "(string \<times> cell list) list"

definition process_variants ::
  "(string \<times> table_file) list option \<Rightarrow> string list \<Rightarrow> string \<Rightarrow> bool \<Rightarrow> (string \<rightharpoonup> string) option
     \<Rightarrow> failure + oncoprint" where
  "process_variants variant_dir focus_variants strip_text process_cosmic id_updater =
     (case variant_dir of
        None \<Rightarrow> Inl FileNotFoundError
      | Some listing \<Rightarrow>
          (case scan_files focus_variants strip_text process_cosmic id_updater listing [] [] of
             Inl e \<Rightarrow> Inl e
           | Inr (variant_assign, case_ids) \<Rightarrow>
               Inr \<lparr>columns = focus_variants,
                    rows = sort_key fst (zip case_ids variant_assign)\<rparr>))"

subsection \<open>Feature lists\<close>

text \<open>
  A Python \<^verbatim>\<open>set\<close> of strings is iterated in an order that depends on the hashes of its
  elements, and string hashes are salted anew for every interpreter run. The order is
  therefore a parameter \<open>order\<close> of the model: \<open>py_set order xs\<close> is the list in which
  \<^verbatim>\<open>set(xs)\<close> is iterated. A parameter is a possible iteration order when it only
  permutes its argument.
\<close>

definition py_set :: "(string list \<Rightarrow> string list) \<Rightarrow> string list \<Rightarrow> string list" where
  "py_set order xs = order (remdups xs)"

definition iteration_order :: "(string list \<Rightarrow> string list) \<Rightarrow> bool" where
  "iteration_order order = (\<forall>xs. mset (order xs) = mset xs)"

text \<open>
  \<^verbatim>\<open>series.value_counts().index.tolist()\<close>: the distinct values, most frequent first.
  pandas leaves the order among equally frequent values open; here they stay in the
  order of \<open>remdups\<close>.
\<close>

definition value_counts :: "string list \<Rightarrow> string list" where
  "value_counts xs = sort_key (\<lambda>v. - int (count_list xs v)) (remdups xs)"

definition top_n :: nat where
  "top_n = 50"

definition paad_genes :: "dataframe \<Rightarrow> failure + string list" where
  "paad_genes cosmic_all_df =
     (case column cosmic_all_df ''Gene.refGene'' of
        Inl e \<Rightarrow> Inl e
      | Inr genes \<Rightarrow> Inr (take top_n (value_counts genes) @ [''ATM'', ''RNF43'']))"

definition unique_cosmic_ids :: "(string list \<Rightarrow> string list) \<Rightarrow> dataframe \<Rightarrow> failure + string list" where
  "unique_cosmic_ids order cosmic_all_df =
     (case column cosmic_all_df ''cosmic70'' of
        Inl e \<Rightarrow> Inl e
      | Inr ids \<Rightarrow> Inr (py_set order ids))"

subsection \<open>The pass over the prefiltered variants\<close>

text \<open>\<^verbatim>\<open>df.query('name == @v')\<close>\<close>

definition query_eq :: "string \<Rightarrow> string \<Rightarrow> dataframe \<Rightarrow> failure + dataframe" where
  "query_eq name v df =
     (case map_of df name of
        None \<Rightarrow> Inl (UndefinedVariableError name)
      | Some vs \<Rightarrow> Inr (select_rows (map (\<lambda>x. x = v) vs) df))"

fun consensus_loop ::
  "dataframe \<Rightarrow> string list \<Rightarrow> string list \<Rightarrow> cell list list \<Rightarrow> string list
     \<Rightarrow> failure + (cell list list \<times> string list)" where
  "consensus_loop df unique_mutations [] similarity case_id_consensus =
     Inr (similarity, case_id_consensus)"
| "consensus_loop df unique_mutations (sid # rest) similarity case_id_consensus =
     (case query_eq ''final_id'' sid df of
        Inl e \<Rightarrow> Inl e
      | Inr variant_sub_df \<Rightarrow>
     (case membership variant_sub_df ''AAChange.refGene'' (Num 1) (Num 0) unique_mutations of
        Inl e \<Rightarrow> Inl e
      | Inr cosmic_class \<Rightarrow>
          consensus_loop df unique_mutations rest
            (similarity @ [cosmic_class]) (case_id_consensus @ [sid])))"

text \<open>
  The cells from the filter on \<^verbatim>\<open>AAChange.refGene\<close> to the construction of the frame.
  The rows are not sorted in this pass.
\<close>

definition consensus_similarity ::
  "(string list \<Rightarrow> string list) \<Rightarrow> dataframe \<Rightarrow> failure + oncoprint" where
  "consensus_similarity order cosmic_prefiltered_df =
     (case drop_sentinel ''AAChange.refGene'' cosmic_prefiltered_df of
        Inl e \<Rightarrow> Inl e
      | Inr restricted \<Rightarrow>
     (case column restricted ''AAChange.refGene'' of
        Inl e \<Rightarrow> Inl e
      | Inr changes \<Rightarrow>
     (case column restricted ''final_id'' of
        Inl e \<Rightarrow> Inl e
      | Inr final_ids \<Rightarrow>
     (case consensus_loop restricted (py_set order changes) (py_set order final_ids) [] [] of
        Inl e \<Rightarrow> Inl e
      | Inr (similarity, case_id_consensus) \<Rightarrow>
          Inr \<lparr>columns = py_set order changes,
               rows = zip case_id_consensus similarity\<rparr>))))"

subsection \<open>The notebook, cell by cell\<close>

text \<open>
  The inputs are the two aggregate tables and the two directories; an absent file or
  directory is \<open>None\<close>. A run executes the cells in order and stops at the first
  exception; its result is the list of files written so far, each with the frame that
  \<^verbatim>\<open>to_csv\<close> wrote to it, and the exception if there was one.
\<close>

record inputs =
  all_cosmic_variants :: "table_file option"
  processed_vcfs :: "(string \<times> table_file) list option"
  processed_merged_vcfs :: "(string \<times> table_file) list option"
  all_cosmic_prefiltered_variants :: "table_file option"

definition load_table :: "table_file option \<Rightarrow> failure + dataframe" where
  "load_table f = (case f of None \<Rightarrow> Inl FileNotFoundError | Some t \<Rightarrow> read_table False t)"

definition replicate_strip_text :: string where
  "replicate_strip_text = ''_001_processed_variants.tsv.bz2''"

definition merged_strip_text :: string where
  "merged_strip_text = ''_processed_variants.tsv.bz2''"

type_synonym written = "(string \<times> oncoprint) list"

definition prefiltered_cells ::
  "(string list \<Rightarrow> string list) \<Rightarrow> inputs \<Rightarrow> written \<Rightarrow> written \<times> failure option" where
  "prefiltered_cells order inp out =
     (case load_table (all_cosmic_prefiltered_variants inp) of
        Inl e \<Rightarrow> (out, Some e)
      | Inr cosmic_prefiltered_df \<Rightarrow>
     (case column cosmic_prefiltered_df ''Gene.refGene'' of
        Inl e \<Rightarrow> (out, Some e)
      | Inr genes \<Rightarrow>
     (case consensus_similarity order cosmic_prefiltered_df of
        Inl e \<Rightarrow> (out, Some e)
      | Inr cosmic_common_consensus_df \<Rightarrow>
          (out @ [(''results/cosmic_prefiltered_similarity_merged.tsv'',
                   cosmic_common_consensus_df)], None))))"

definition similarity_cells ::
  "(string list \<Rightarrow> string list) \<Rightarrow> inputs \<Rightarrow> dataframe \<Rightarrow> written \<Rightarrow> written \<times> failure option" where
  "similarity_cells order inp cosmic_all_df out =
     (case unique_cosmic_ids order cosmic_all_df of
        Inl e \<Rightarrow> (out, Some e)
      | Inr ids \<Rightarrow>
     (case process_variants (processed_vcfs inp) ids replicate_strip_text True None of
        Inl e \<Rightarrow> (out, Some e)
      | Inr replicate_cosmic_df \<Rightarrow>
     (case process_variants (processed_merged_vcfs inp) ids merged_strip_text True None of
        Inl e \<Rightarrow>
          (out @ [(''results/cosmic_similarity_replicates.tsv'', replicate_cosmic_df)], Some e)
      | Inr merged_cosmic_df \<Rightarrow>
          prefiltered_cells order inp
            (out @ [(''results/cosmic_similarity_replicates.tsv'', replicate_cosmic_df),
                    (''results/cosmic_similarity_merged.tsv'', merged_cosmic_df)]))))"

definition notebook :: "(string list \<Rightarrow> string list) \<Rightarrow> inputs \<Rightarrow> written \<times> failure option" where
  "notebook order inp =
     (case load_table (all_cosmic_variants inp) of
        Inl e \<Rightarrow> ([], Some e)
      | Inr cosmic_all_df \<Rightarrow>
     (case paad_genes cosmic_all_df of
        Inl e \<Rightarrow> ([], Some e)
      | Inr genes \<Rightarrow>
     (case process_variants (processed_vcfs inp) genes replicate_strip_text False None of
        Inl e \<Rightarrow> ([], Some e)
      | Inr replicate_oncoprint_df \<Rightarrow>
     (case process_variants (processed_merged_vcfs inp) genes merged_strip_text False None of
        Inl e \<Rightarrow> ([(''results/oncoprint_replicates.tsv'', replicate_oncoprint_df)], Some e)
      | Inr merged_oncoprint_df \<Rightarrow>
          similarity_cells order inp cosmic_all_df
            [(''results/oncoprint_replicates.tsv'', replicate_oncoprint_df),
             (''results/oncoprint_merged.tsv'', merged_oncoprint_df)]))))"

subsection \<open>Vocabulary of the statements\<close>

text \<open>The column a mode looks features up in, and the two cell values of the mode.\<close>

definition feature_column :: "bool \<Rightarrow> string" where
  "feature_column process_cosmic = (if process_cosmic then ''cosmic70'' else ''Gene.refGene'')"

definition present :: "bool \<Rightarrow> cell" where
  "present process_cosmic = (if process_cosmic then Num 1 else Str ''MUT;'')"

definition absent :: "bool \<Rightarrow> cell" where
  "absent process_cosmic = (if process_cosmic then Num 0 else Str '''')"

text \<open>The values of column \<open>col\<close> of \<open>df\<close>; none when the frame has no such column.\<close>

definition column_values :: "dataframe \<Rightarrow> string \<Rightarrow> string list" where
  "column_values df col = (case map_of df col of None \<Rightarrow> [] | Some vs \<Rightarrow> vs)"

text \<open>The values of column \<open>col\<close> in the rows of \<open>df\<close> whose \<^verbatim>\<open>cosmic70\<close> field is not \<^verbatim>\<open>'.'\<close>.\<close>

definition cosmic_values :: "dataframe \<Rightarrow> string \<Rightarrow> string list" where
  "cosmic_values df col =
     (case map_of df ''cosmic70'' of
        None \<Rightarrow> []
      | Some cs \<Rightarrow>
          (case map_of df col of
             None \<Rightarrow> []
           | Some vs \<Rightarrow> map snd (filter (\<lambda>(c, v). c \<noteq> ''.'') (zip cs vs))))"


text \<open>
  The identifier as the specification describes it for a run with a remapping table:
  strip the suffix first, then substitute the prefix token in the stripped name.
\<close>

definition sample_id_spec :: "string \<Rightarrow> (string \<rightharpoonup> string) \<Rightarrow> string \<Rightarrow> failure + string" where
  "sample_id_spec strip_text upd variant_file =
     (case upd (split_first variant_file) of
        None \<Rightarrow> Inl (KeyError (split_first variant_file))
      | Some v \<Rightarrow>
          Inr (str_replace (str_replace variant_file strip_text '''') (split_first variant_file) v))"

text \<open>
  The pairs (amino-acid change, \<^verbatim>\<open>final_id\<close>) of the rows of the prefiltered table whose
  amino-acid change is not \<^verbatim>\<open>'.'\<close>.
\<close>

definition restricted_pairs :: "string list \<Rightarrow> string list \<Rightarrow> (string \<times> string) list" where
  "restricted_pairs changes final_ids = filter (\<lambda>(a, s). a \<noteq> ''.'') (zip changes final_ids)"

text \<open>The row of marks of a table: one cell per feature, in the order of the feature list.\<close>

definition marks :: "bool \<Rightarrow> dataframe \<Rightarrow> string list \<Rightarrow> cell list" where
  "marks process_cosmic df focus_variants =
     map (\<lambda>x. if x \<in> set (cosmic_values df (feature_column process_cosmic))
              then present process_cosmic else absent process_cosmic) focus_variants"

section \<open>Properties\<close>

subsection \<open>Replacement in strings\<close>




subsection \<open>The builder on a directory that loads\<close>

text \<open>
  A run of the builder succeeds exactly when every file of the listing yields a row, and
  then the frame holds these rows, sorted by identifier. A file yields a row when it
  parses, has the column \<^verbatim>\<open>cosmic70\<close> and (if there is a feature to test) the column of
  the mode, and its identifier can be derived; the row is \<open>marks\<close> of the table.
\<close>

lemma map_of_select_rows:
  "map_of (select_rows keep df) name =
     map_option (\<lambda>vs. map snd (filter fst (zip keep vs))) (map_of df name)"
  by (simp add: select_rows_def map_of_map)

lemma masked_values:
  "map snd (filter fst (zip (map P cs) vs)) = map snd (filter (\<lambda>(c, v). P c) (zip cs vs))"
  by (induction cs vs rule: list_induct2') auto

lemma map_of_drop_sentinel:
  assumes "drop_sentinel ''cosmic70'' df = Inr sub"
  shows "map_of sub col = map_option (\<lambda>vs. cosmic_values df col) (map_of df col)"
proof -
  obtain cs where cs: "map_of df ''cosmic70'' = Some cs"
    and sub: "sub = select_rows (map (\<lambda>v. v \<noteq> ''.'') cs) df"
    using assms by (auto simp: drop_sentinel_def column_def split: option.splits)
  show ?thesis
    by (cases "map_of df col") (simp_all add: sub map_of_select_rows cosmic_values_def cs masked_values)
qed

lemma drop_sentinel_Inr:
  "(\<exists>sub. drop_sentinel name df = Inr sub) \<longleftrightarrow> map_of df name \<noteq> None"
  by (auto simp: drop_sentinel_def column_def split: option.splits)

lemma membership_Inr:
  "membership df col yes no fv = Inr cls \<longleftrightarrow>
     (fv = [] \<or> map_of df col \<noteq> None) \<and>
     cls = map (\<lambda>x. if x \<in> set (case map_of df col of None \<Rightarrow> [] | Some vs \<Rightarrow> vs) then yes else no) fv"
proof (induction fv arbitrary: cls)
  case Nil
  then show ?case by auto
next
  case (Cons x fv)
  show ?case
  proof (cases "map_of df col")
    case None
    then show ?thesis by (simp add: column_def)
  next
    case (Some vs)
    then show ?thesis
      using Cons.IH by (cases "membership df col yes no fv") (auto simp: column_def)
  qed
qed

lemma variant_class_Inr:
  assumes "drop_sentinel ''cosmic70'' df = Inr sub"
  shows "variant_class pc sub fv = Inr cls \<longleftrightarrow>
     (fv = [] \<or> map_of df (feature_column pc) \<noteq> None) \<and> cls = marks pc df fv"
proof -
  have "membership sub (feature_column pc) (present pc) (absent pc) fv = Inr cls \<longleftrightarrow>
     (fv = [] \<or> map_of df (feature_column pc) \<noteq> None) \<and> cls = marks pc df fv"
    unfolding membership_Inr map_of_drop_sentinel [OF assms] marks_def
    by (cases "map_of df (feature_column pc)") (auto simp: cosmic_values_def)
  then show ?thesis
    by (cases pc) (simp_all add: variant_class_def feature_column_def present_def absent_def)
qed

lemma process_file_Inr:
  "process_file fv st pc upd e = Inr r \<longleftrightarrow>
     (\<exists>df. read_table True (snd e) = Inr df \<and> map_of df ''cosmic70'' \<noteq> None
        \<and> (fv = [] \<or> map_of df (feature_column pc) \<noteq> None)
        \<and> sample_id st upd (fst e) = Inr (fst r) \<and> snd r = marks pc df fv)"
proof (cases "read_table True (snd e)")
  case (Inl a)
  then show ?thesis by (simp add: process_file_def)
next
  case (Inr df)
  show ?thesis
  proof (cases "drop_sentinel ''cosmic70'' df")
    case (Inl a)
    then have "map_of df ''cosmic70'' = None"
      using drop_sentinel_Inr [of "''cosmic70''" df] by auto
    with Inl Inr show ?thesis by (simp add: process_file_def)
  next
    case sub: (Inr sub)
    then have "map_of df ''cosmic70'' \<noteq> None"
      using drop_sentinel_Inr [of "''cosmic70''" df] by auto
    with Inr sub variant_class_Inr [OF sub, of pc fv] show ?thesis
      by (cases r; cases "variant_class pc sub fv")
         (auto simp: process_file_def split: sum.splits)
  qed
qed

lemma scan_files_Inr:
  "scan_files fv st pc upd l va ids = Inr (va', ids') \<longleftrightarrow>
     (\<exists>rs. map (process_file fv st pc upd) l = map Inr rs
        \<and> va' = va @ map snd rs \<and> ids' = ids @ map fst rs)"
proof (induction l arbitrary: va ids)
  case Nil
  then show ?case by auto
next
  case (Cons e l)
  show ?case
  proof (cases "process_file fv st pc upd e")
    case (Inl a)
    then show ?thesis by auto
  next
    case (Inr r)
    obtain sid cls where r: "r = (sid, cls)" by (cases r)
    have "scan_files fv st pc upd (e # l) va ids = Inr (va', ids') \<longleftrightarrow>
       (\<exists>rs. map (process_file fv st pc upd) l = map Inr rs
          \<and> va' = va @ map snd (r # rs) \<and> ids' = ids @ map fst (r # rs))"
      by (simp add: Inr r Cons.IH)
    also have "\<dots> \<longleftrightarrow> (\<exists>rs'. map (process_file fv st pc upd) (e # l) = map Inr rs'
          \<and> va' = va @ map snd rs' \<and> ids' = ids @ map fst rs')"
    proof
      assume "\<exists>rs. map (process_file fv st pc upd) l = map Inr rs
          \<and> va' = va @ map snd (r # rs) \<and> ids' = ids @ map fst (r # rs)"
      then obtain rs where "map (process_file fv st pc upd) (e # l) = map Inr (r # rs)"
        and "va' = va @ map snd (r # rs)" and "ids' = ids @ map fst (r # rs)"
        using Inr by auto
      then show "\<exists>rs'. map (process_file fv st pc upd) (e # l) = map Inr rs'
          \<and> va' = va @ map snd rs' \<and> ids' = ids @ map fst rs'"
        by blast
    next
      assume "\<exists>rs'. map (process_file fv st pc upd) (e # l) = map Inr rs'
          \<and> va' = va @ map snd rs' \<and> ids' = ids @ map fst rs'"
      then obtain rs' where rs': "map (process_file fv st pc upd) (e # l) = map Inr rs'"
        and acc: "va' = va @ map snd rs'" "ids' = ids @ map fst rs'"
        by blast
      from rs' Inr obtain rs where "rs' = r # rs" "map (process_file fv st pc upd) l = map Inr rs"
        by (cases rs') auto
      with acc show "\<exists>rs. map (process_file fv st pc upd) l = map Inr rs
          \<and> va' = va @ map snd (r # rs) \<and> ids' = ids @ map fst (r # rs)"
        by blast
    qed
    finally show ?thesis .
  qed
qed

lemma process_variants_Inr:
  "process_variants (Some l) fv st pc upd = Inr M \<longleftrightarrow>
     (\<exists>rs. map (process_file fv st pc upd) l = map Inr rs
        \<and> M = \<lparr>columns = fv, rows = sort_key fst rs\<rparr>)"
proof -
  have "process_variants (Some l) fv st pc upd = Inr M \<longleftrightarrow>
     (\<exists>va ids. scan_files fv st pc upd l [] [] = Inr (va, ids)
        \<and> M = \<lparr>columns = fv, rows = sort_key fst (zip ids va)\<rparr>)"
    by (auto simp: process_variants_def split: sum.splits)
  also have "\<dots> \<longleftrightarrow> (\<exists>rs. map (process_file fv st pc upd) l = map Inr rs
        \<and> M = \<lparr>columns = fv, rows = sort_key fst rs\<rparr>)"
    unfolding scan_files_Inr by (auto simp: zip_map_fst_snd)
  finally show ?thesis .
qed

lemma process_variants_Inl:
  "(\<exists>err. process_variants (Some l) fv st pc upd = Inl err) \<longleftrightarrow>
     (\<exists>e\<in>set l. \<exists>err. process_file fv st pc upd e = Inl err)"
proof -
  have "(\<exists>err. process_variants (Some l) fv st pc upd = Inl err) \<longleftrightarrow>
     \<not> (\<exists>M. process_variants (Some l) fv st pc upd = Inr M)"
    by (cases "process_variants (Some l) fv st pc upd") auto
  also have "\<dots> \<longleftrightarrow> \<not> (\<exists>rs. map (process_file fv st pc upd) l = map Inr rs)"
    unfolding process_variants_Inr by auto
  also have "\<dots> \<longleftrightarrow> (\<exists>e\<in>set l. \<exists>err. process_file fv st pc upd e = Inl err)"
  proof (induction l)
    case Nil
    then show ?case by simp
  next
    case (Cons e l)
    show ?case
      by (cases "process_file fv st pc upd e")
         (use Cons.IH in \<open>auto simp: map_eq_Cons_conv Cons_eq_map_conv\<close>)
  qed
  finally show ?thesis .
qed

subsection \<open>Sample identifiers\<close>



text \<open>
  Claim C5 says that, with a remapping table, the identifier is the stripped file name
  with its prefix token replaced by the value of the token in the table. The source
  computes the stripped name and then replaces the prefix token in the file name
  itself, so the strip-text stays in the identifier. For the file
  \<^verbatim>\<open>001_processed_variants.tsv.bz2\<close> and the table \<^verbatim>\<open>{'001': 'A'}\<close> the source yields
  \<^verbatim>\<open>A_processed_variants.tsv.bz2\<close>, where stripping and then substituting yields \<^verbatim>\<open>A\<close>.
\<close>

theorem sample_id_updater_keeps_suffix:
  "sample_id ''_processed_variants.tsv.bz2'' (Some [''001'' \<mapsto> ''A'']) ''001_processed_variants.tsv.bz2''
     = Inr ''A_processed_variants.tsv.bz2''
   \<and> sample_id_spec ''_processed_variants.tsv.bz2'' [''001'' \<mapsto> ''A''] ''001_processed_variants.tsv.bz2''
     = Inr ''A''"
  by (simp add: sample_id_def sample_id_spec_def split_first_def str_replace_def)

subsection \<open>Rows of the frame\<close>

lemma process_file_marks:
  assumes "process_file fv st pc upd e = Inr r"
  shows "\<exists>df. read_table True (snd e) = Inr df \<and> sample_id st upd (fst e) = Inr (fst r)
           \<and> snd r = marks pc df fv"
  using assms unfolding process_file_Inr by blast

lemma rows_of_listing:
  assumes "map (process_file fv st pc upd) l = map Inr rs"
  shows "e \<in> set l \<Longrightarrow> \<exists>r\<in>set rs. process_file fv st pc upd e = Inr r"
    and "r \<in> set rs \<Longrightarrow> \<exists>e\<in>set l. process_file fv st pc upd e = Inr r"
proof -
  have len: "length l = length rs" using assms by (metis length_map)
  have nth: "process_file fv st pc upd (l ! i) = Inr (rs ! i)" if "i < length l" for i
    using assms that len by (metis nth_map)
  show "e \<in> set l \<Longrightarrow> \<exists>r\<in>set rs. process_file fv st pc upd e = Inr r"
    using nth len by (metis in_set_conv_nth)
  show "r \<in> set rs \<Longrightarrow> \<exists>e\<in>set l. process_file fv st pc upd e = Inr r"
    using nth len by (metis in_set_conv_nth)
qed

lemma marks_nth: "j < length fv \<Longrightarrow>
  marks pc df fv ! j = (if fv ! j \<in> set (cosmic_values df (feature_column pc)) then present pc else absent pc)"
  by (simp add: marks_def)

lemma marks_length: "length (marks pc df fv) = length fv"
  by (simp add: marks_def)

lemma cosmic_values_subset: "set (cosmic_values df col) \<subseteq> set (column_values df col)"
proof (cases "map_of df ''cosmic70''")
  case None
  then show ?thesis by (simp add: cosmic_values_def)
next
  case (Some cs)
  show ?thesis
    by (cases "map_of df col")
       (auto simp: cosmic_values_def column_values_def Some dest: set_zip_rightD)
qed

lemma marks_all_absent:
  assumes "set (column_values df ''cosmic70'') \<subseteq> {''.''}"
  shows "marks pc df fv = replicate (length fv) (absent pc)"
proof -
  have "cosmic_values df col = []" for col
  proof (cases "map_of df ''cosmic70''")
    case None
    then show ?thesis by (simp add: cosmic_values_def)
  next
    case (Some cs)
    with assms have "\<forall>c\<in>set cs. c = ''.''" by (auto simp: column_values_def)
    then have "filter (\<lambda>(c, v). c \<noteq> ''.'') (zip cs vs) = []" for vs :: "string list"
      by (auto simp: filter_empty_conv dest: set_zip_leftD)
    then show ?thesis by (simp add: cosmic_values_def Some split: option.splits)
  qed
  then show ?thesis by (simp add: marks_def map_replicate_const)
qed

lemma no_sentinel_left:
  assumes "drop_sentinel ''cosmic70'' df = Inr sub"
  shows "''.'' \<notin> set (column_values sub ''cosmic70'')"
    and "column_values sub col = cosmic_values df col"
proof -
  have col: "column_values sub c = cosmic_values df c" for c
    using map_of_drop_sentinel [OF assms, of c]
    by (cases "map_of df c") (auto simp: column_values_def cosmic_values_def split: option.splits)
  show "column_values sub col = cosmic_values df col" by (rule col)
  have "''.'' \<notin> set (cosmic_values df ''cosmic70'')"
    by (cases "map_of df ''cosmic70''") (auto simp: cosmic_values_def zip_same)
  then show "''.'' \<notin> set (column_values sub ''cosmic70'')" by (simp add: col)
qed

lemma insort_key_map:
  "insort_key f (g x) (map g xs) = map g (insort_key (\<lambda>y. f (g y)) x xs)"
  by (induction xs) auto

lemma sort_key_map: "sort_key f (map g xs) = map g (sort_key (\<lambda>y. f (g y)) xs)"
  by (induction xs) (simp_all add: insort_key_map)

lemma map_fst_sort_key: "map fst (sort_key fst rs) = sort (map fst rs)"
  by (simp add: sort_key_map)

lemma listing_ids:
  assumes "map (process_file fv st pc upd) l = map Inr rs"
  shows "map (\<lambda>e. sample_id st upd (fst e)) l = map Inr (map fst rs)"
  using assms
proof (induction l arbitrary: rs)
  case Nil
  then show ?case by simp
next
  case (Cons e l)
  then obtain r rs' where rs: "rs = r # rs'" "process_file fv st pc upd e = Inr r"
    "map (process_file fv st pc upd) l = map Inr rs'"
    by (cases rs) auto
  from process_file_marks [OF rs(2)] have "sample_id st upd (fst e) = Inr (fst r)" by blast
  with Cons.IH [OF rs(3)] rs(1) show ?case by simp
qed

text \<open>The definitions that evaluate the builder on a concrete directory.\<close>

lemmas builder_eval = process_variants_def process_file_def drop_sentinel_def column_def
  select_rows_def variant_class_def sample_id_def str_replace_def

subsection \<open>Marks and features\<close>

text \<open>
  Claim C1, as amended. Let the builder succeed on a directory and let \<open>F\<close> be the
  feature at position \<open>j\<close> of the feature list. If a file of the directory has \<open>F\<close> in
  the column of the mode in a row whose \<^verbatim>\<open>cosmic70\<close> field is not \<^verbatim>\<open>'.'\<close>, then the frame
  has a row labelled with the identifier of that file whose cell \<open>j\<close> is \<open>1\<close> (COSMIC
  mode) or \<^verbatim>\<open>'MUT;'\<close> (gene mode). If no file of the directory has \<open>F\<close> in the column of
  the mode, every row has \<open>0\<close>, respectively the empty string, in cell \<open>j\<close>.
\<close>

theorem feature_marks:
  assumes ok: "process_variants (Some listing) fv st pc upd = Inr M" and j: "j < length fv"
  shows "(\<forall>name f df. (name, f) \<in> set listing \<and> read_table True f = Inr df
            \<and> fv ! j \<in> set (cosmic_values df (feature_column pc))
          \<longrightarrow> (\<exists>sid cls. sample_id st upd name = Inr sid \<and> (sid, cls) \<in> set (rows M)
                  \<and> cls ! j = present pc))
       \<and> ((\<forall>name f df. (name, f) \<in> set listing \<and> read_table True f = Inr df
              \<longrightarrow> fv ! j \<notin> set (column_values df (feature_column pc)))
          \<longrightarrow> (\<forall>r\<in>set (rows M). snd r ! j = absent pc))"
proof -
  from ok obtain rs where rs: "map (process_file fv st pc upd) listing = map Inr rs"
    and M: "M = \<lparr>columns = fv, rows = sort_key fst rs\<rparr>"
    unfolding process_variants_Inr by blast
  have 1: "\<exists>sid cls. sample_id st upd name = Inr sid \<and> (sid, cls) \<in> set (rows M) \<and> cls ! j = present pc"
    if "(name, f) \<in> set listing" "read_table True f = Inr df"
      "fv ! j \<in> set (cosmic_values df (feature_column pc))" for name f df
  proof -
    from rows_of_listing(1) [OF rs that(1)] obtain r
      where r: "r \<in> set rs" "process_file fv st pc upd (name, f) = Inr r" by blast
    from process_file_marks [OF r(2)] that(2)
    have "sample_id st upd name = Inr (fst r)" "snd r = marks pc df fv" by auto
    moreover have "(fst r, snd r) \<in> set (rows M)" using r(1) M by simp
    ultimately show ?thesis using that(3) j by (metis marks_nth)
  qed
  have 2: "snd r ! j = absent pc"
    if none: "\<forall>name f df. (name, f) \<in> set listing \<and> read_table True f = Inr df
              \<longrightarrow> fv ! j \<notin> set (column_values df (feature_column pc))"
      and r: "r \<in> set (rows M)" for r
  proof -
    from r M have "r \<in> set rs" by simp
    from rows_of_listing(2) [OF rs this] obtain e
      where e: "e \<in> set listing" "process_file fv st pc upd e = Inr r" by blast
    from process_file_marks [OF e(2)] obtain df
      where df: "read_table True (snd e) = Inr df" "snd r = marks pc df fv" by blast
    from none e(1) df(1) have "fv ! j \<notin> set (column_values df (feature_column pc))"
      by (cases e) auto
    then have "fv ! j \<notin> set (cosmic_values df (feature_column pc))"
      using cosmic_values_subset by blast
    then show ?thesis using df(2) j by (simp add: marks_nth)
  qed
  from 1 2 show ?thesis by blast
qed

text \<open>
  The theorem on the two-file example of the specification: \<^verbatim>\<open>KRAS\<close> is marked in the
  row of the first file, \<^verbatim>\<open>BRCA1\<close> in no row.
\<close>

theorem feature_marks_witness:
  "process_variants
     (Some [(''A_processed_variants.tsv.bz2'',
             Tsv [(''Chr'', [''12'']), (''cosmic70'', [''ID=COSM521'']), (''Gene.refGene'', [''KRAS''])]),
            (''B_processed_variants.tsv.bz2'',
             Tsv [(''Chr'', [''17'']), (''cosmic70'', [''.'']), (''Gene.refGene'', [''TP53''])])])
     [''KRAS'', ''BRCA1''] ''_processed_variants.tsv.bz2'' False None
   = Inr \<lparr>columns = [''KRAS'', ''BRCA1''],
          rows = [(''A'', [Str ''MUT;'', Str '''']), (''B'', [Str '''', Str ''''])]\<rparr>
   \<and> (\<exists>cls. (''A'', cls) \<in> set [(''A'', [Str ''MUT;'', Str '''']), (''B'', [Str '''', Str ''''])]
          \<and> cls ! 0 = Str ''MUT;'')
   \<and> map (\<lambda>r. snd r ! 1) [(''A'', [Str ''MUT;'', Str '''']), (''B'', [Str '''', Str ''''])]
       = [Str '''', Str '''']"
proof -
  let ?dir = "[(''A_processed_variants.tsv.bz2'',
             Tsv [(''Chr'', [''12'']), (''cosmic70'', [''ID=COSM521'']), (''Gene.refGene'', [''KRAS''])]),
            (''B_processed_variants.tsv.bz2'',
             Tsv [(''Chr'', [''17'']), (''cosmic70'', [''.'']), (''Gene.refGene'', [''TP53''])])]"
  let ?M = "\<lparr>columns = [''KRAS'', ''BRCA1''],
          rows = [(''A'', [Str ''MUT;'', Str '''']), (''B'', [Str '''', Str ''''])]\<rparr>"
  have ok: "process_variants (Some ?dir) [''KRAS'', ''BRCA1''] ''_processed_variants.tsv.bz2'' False None
      = Inr ?M"
    by (simp add: builder_eval)
  have j0: "(0::nat) < length [''KRAS'', ''BRCA1'']" and j1: "(1::nat) < length [''KRAS'', ''BRCA1'']"
    by simp_all
  have a: "(''A_processed_variants.tsv.bz2'',
             Tsv [(''Chr'', [''12'']), (''cosmic70'', [''ID=COSM521'']), (''Gene.refGene'', [''KRAS''])]) \<in> set ?dir
     \<and> read_table True (Tsv [(''Chr'', [''12'']), (''cosmic70'', [''ID=COSM521'']), (''Gene.refGene'', [''KRAS''])])
         = Inr [(''cosmic70'', [''ID=COSM521'']), (''Gene.refGene'', [''KRAS''])]
     \<and> [''KRAS'', ''BRCA1''] ! 0 \<in> set (cosmic_values [(''cosmic70'', [''ID=COSM521'']), (''Gene.refGene'', [''KRAS''])] (feature_column False))"
    by (simp add: cosmic_values_def feature_column_def)
  have none: "\<forall>name f df. (name, f) \<in> set ?dir \<and> read_table True f = Inr df
      \<longrightarrow> [''KRAS'', ''BRCA1''] ! 1 \<notin> set (column_values df (feature_column False))"
    by (auto simp: column_values_def feature_column_def)
  from feature_marks [OF ok j0] a
  have "\<exists>sid cls. sample_id ''_processed_variants.tsv.bz2'' None ''A_processed_variants.tsv.bz2'' = Inr sid
          \<and> (sid, cls) \<in> set (rows ?M) \<and> cls ! 0 = present False"
    by blast
  moreover from feature_marks [OF ok j1] none
  have "\<forall>r\<in>set (rows ?M). snd r ! 1 = absent False"
    by blast
  ultimately show ?thesis
    using ok by (simp add: present_def absent_def sample_id_def str_replace_def)
qed

text \<open>
  Claim C1 as it is stated fails: a file that has \<^verbatim>\<open>KRAS\<close> in its gene column, but only
  in a row without a COSMIC annotation, gets the empty string at \<^verbatim>\<open>KRAS\<close>.
\<close>

theorem unflagged_gene_not_marked:
  "column_values [(''cosmic70'', [''.'']), (''Gene.refGene'', [''KRAS''])] ''Gene.refGene'' = [''KRAS'']
   \<and> process_variants
        (Some [(''S1_processed_variants.tsv.bz2'',
                Tsv [(''Chr'', [''12'']), (''cosmic70'', [''.'']), (''Gene.refGene'', [''KRAS''])])])
        [''KRAS''] ''_processed_variants.tsv.bz2'' False None
      = Inr \<lparr>columns = [''KRAS''], rows = [(''S1'', [Str ''''])]\<rparr>"
  by (simp add: builder_eval column_values_def)

subsection \<open>Shape of the frame\<close>

text \<open>
  Claim C2, as amended. The columns of the frame are the feature list, in its order and
  with its length, so no feature appears twice when the feature list has none twice.
  Every row has one cell per feature. There is one row per file of the directory; the
  row labels are sorted and are, with multiplicity, the identifiers derived from the
  file names. When these identifiers are pairwise distinct, the labels are distinct and
  the number of rows is the number of distinct identifiers.
\<close>

theorem matrix_shape:
  assumes ok: "process_variants (Some listing) fv st pc upd = Inr M"
  shows "columns M = fv
       \<and> (distinct fv \<longrightarrow> distinct (columns M))
       \<and> (\<forall>r\<in>set (rows M). length (snd r) = length fv)
       \<and> length (rows M) = length listing
       \<and> sorted (map fst (rows M))
       \<and> mset (map (\<lambda>r. Inr (fst r)) (rows M)) = mset (map (\<lambda>e. sample_id st upd (fst e)) listing)
       \<and> (distinct (map (\<lambda>e. sample_id st upd (fst e)) listing)
            \<longrightarrow> distinct (map fst (rows M))
              \<and> length (rows M) = card ((\<lambda>e. sample_id st upd (fst e)) ` set listing))"
proof -
  from ok obtain rs where rs: "map (process_file fv st pc upd) listing = map Inr rs"
    and M: "M = \<lparr>columns = fv, rows = sort_key fst rs\<rparr>"
    unfolding process_variants_Inr by blast
  have len: "length rs = length listing" using rs by (metis length_map)
  have ids: "map (\<lambda>e. sample_id st upd (fst e)) listing = map (\<lambda>r. Inr (fst r)) rs"
    using listing_ids [OF rs] by (simp add: comp_def)
  have "length (snd r) = length fv" if "r \<in> set (rows M)" for r
  proof -
    from that M have "r \<in> set rs" by simp
    from rows_of_listing(2) [OF rs this] obtain e where "process_file fv st pc upd e = Inr r"
      by blast
    from process_file_marks [OF this] show ?thesis by (auto simp: marks_length)
  qed
  moreover have "sorted (map fst (rows M))"
    by (simp add: M)
  moreover have "mset (map (\<lambda>r. Inr (fst r)) (rows M)) = mset (map (\<lambda>e. sample_id st upd (fst e)) listing)"
    unfolding ids by (simp add: M)
  moreover have "distinct (map fst (rows M))
      \<and> length (rows M) = card ((\<lambda>e. sample_id st upd (fst e)) ` set listing)"
    if d: "distinct (map (\<lambda>e. sample_id st upd (fst e)) listing)"
  proof -
    from d have "distinct (map (\<lambda>r. Inr (fst r) :: failure + string) rs)" by (simp add: ids)
    then have "distinct (map (Inr :: string \<Rightarrow> failure + string) (map fst rs))" by (simp add: comp_def)
    then have "distinct (map fst rs)" by (auto simp: distinct_map inj_on_def)
    then have 1: "distinct (map fst (rows M))"
      by (simp add: M map_fst_sort_key)
    have "card ((\<lambda>e. sample_id st upd (fst e)) ` set listing) = length listing"
      using distinct_card [OF d] by simp
    with 1 len show ?thesis by (simp add: M)
  qed
  ultimately show ?thesis using len by (simp add: M)
qed

text \<open>The theorem on a two-file directory, listed in descending order of the names.\<close>

theorem matrix_shape_witness:
  "process_variants
     (Some [(''B_processed_variants.tsv.bz2'',
             Tsv [(''Chr'', [''17'']), (''cosmic70'', [''.'']), (''Gene.refGene'', [''TP53''])]),
            (''A_processed_variants.tsv.bz2'',
             Tsv [(''Chr'', [''12'']), (''cosmic70'', [''ID=COSM521'']), (''Gene.refGene'', [''KRAS''])])])
     [''KRAS'', ''BRCA1''] ''_processed_variants.tsv.bz2'' False None
   = Inr \<lparr>columns = [''KRAS'', ''BRCA1''],
          rows = [(''A'', [Str ''MUT;'', Str '''']), (''B'', [Str '''', Str ''''])]\<rparr>
   \<and> distinct [''KRAS'', ''BRCA1'']
   \<and> distinct (map (\<lambda>e. sample_id ''_processed_variants.tsv.bz2'' None (fst e))
        [(''B_processed_variants.tsv.bz2'',
             Tsv [(''Chr'', [''17'']), (''cosmic70'', [''.'']), (''Gene.refGene'', [''TP53''])]),
            (''A_processed_variants.tsv.bz2'',
             Tsv [(''Chr'', [''12'']), (''cosmic70'', [''ID=COSM521'']), (''Gene.refGene'', [''KRAS''])])])
   \<and> sorted [''A'', ''B''] \<and> distinct [''A'', ''B'']
   \<and> card ((\<lambda>e. sample_id ''_processed_variants.tsv.bz2'' None (fst e)) `
        set [(''B_processed_variants.tsv.bz2'',
             Tsv [(''Chr'', [''17'']), (''cosmic70'', [''.'']), (''Gene.refGene'', [''TP53''])]),
            (''A_processed_variants.tsv.bz2'',
             Tsv [(''Chr'', [''12'']), (''cosmic70'', [''ID=COSM521'']), (''Gene.refGene'', [''KRAS''])])]) = 2"
proof -
  let ?dir = "[(''B_processed_variants.tsv.bz2'',
             Tsv [(''Chr'', [''17'']), (''cosmic70'', [''.'']), (''Gene.refGene'', [''TP53''])]),
            (''A_processed_variants.tsv.bz2'',
             Tsv [(''Chr'', [''12'']), (''cosmic70'', [''ID=COSM521'']), (''Gene.refGene'', [''KRAS''])])]"
  let ?M = "\<lparr>columns = [''KRAS'', ''BRCA1''],
          rows = [(''A'', [Str ''MUT;'', Str '''']), (''B'', [Str '''', Str ''''])]\<rparr>"
  have ok: "process_variants (Some ?dir) [''KRAS'', ''BRCA1''] ''_processed_variants.tsv.bz2'' False None
      = Inr ?M"
    by (simp add: builder_eval)
  have d: "distinct (map (\<lambda>e. sample_id ''_processed_variants.tsv.bz2'' None (fst e)) ?dir)"
    by (simp add: sample_id_def str_replace_def)
  have f: "distinct [''KRAS'', ''BRCA1'']" by simp
  from matrix_shape [OF ok] d f ok show ?thesis by simp
qed

text \<open>
  Claim C2 as it is stated fails: two files whose names strip to the same identifier
  give two rows with the same label; the row index is not deduplicated.
\<close>

theorem duplicate_identifiers_kept:
  "sample_id ''_processed_variants.tsv.bz2'' None ''S1_processed_variants.tsv.bz2'' = Inr ''S1''
   \<and> sample_id ''_processed_variants.tsv.bz2'' None ''S1'' = Inr ''S1''
   \<and> process_variants
        (Some [(''S1'',
                Tsv [(''Chr'', [''12'']), (''cosmic70'', [''ID=COSM521'']), (''Gene.refGene'', [''KRAS''])]),
               (''S1_processed_variants.tsv.bz2'',
                Tsv [(''Chr'', [''12'']), (''cosmic70'', [''ID=COSM521'']), (''Gene.refGene'', [''KRAS''])])])
        [''KRAS''] ''_processed_variants.tsv.bz2'' False None
      = Inr \<lparr>columns = [''KRAS''], rows = [(''S1'', [Str ''MUT;'']), (''S1'', [Str ''MUT;''])]\<rparr>"
  by (simp add: builder_eval)

subsection \<open>Rows without a COSMIC annotation\<close>

lemma cosmic_values_iff:
  "x \<in> set (cosmic_values df col) \<longleftrightarrow>
     (\<exists>i. i < length (column_values df ''cosmic70'') \<and> i < length (column_values df col)
        \<and> column_values df ''cosmic70'' ! i \<noteq> ''.'' \<and> column_values df col ! i = x)"
proof (cases "map_of df ''cosmic70''")
  case None
  then show ?thesis by (simp add: cosmic_values_def column_values_def)
next
  case cs: (Some cs)
  show ?thesis
  proof (cases "map_of df col")
    case None
    then show ?thesis by (simp add: cosmic_values_def column_values_def cs)
  next
    case (Some vs)
    have "x \<in> set (cosmic_values df col) \<longleftrightarrow> (\<exists>c. (c, x) \<in> set (zip cs vs) \<and> c \<noteq> ''.'')"
      by (force simp: cosmic_values_def cs Some)
    also have "\<dots> \<longleftrightarrow> (\<exists>i. i < length cs \<and> i < length vs \<and> cs ! i \<noteq> ''.'' \<and> vs ! i = x)"
      by (auto simp: in_set_zip)
    finally show ?thesis by (simp add: column_values_def cs Some)
  qed
qed

text \<open>
  Claim C3. Let the builder succeed on a directory. For every file of it, the table
  loads and the frame has a row, labelled with the identifier of the file, whose cell
  for a feature is \<open>1\<close> (COSMIC mode) or \<^verbatim>\<open>'MUT;'\<close> (gene mode) exactly when some row of the
  table has a \<^verbatim>\<open>cosmic70\<close> field other than \<^verbatim>\<open>'.'\<close> and the feature in the column of the
  mode, and \<open>0\<close>, respectively the empty string, otherwise: the rows whose \<^verbatim>\<open>cosmic70\<close>
  field is \<^verbatim>\<open>'.'\<close> take no part in the membership test. The subset that the builder
  tests has no \<^verbatim>\<open>'.'\<close> left in \<^verbatim>\<open>cosmic70\<close>, and its column of the mode holds the values
  of the remaining rows. When every row of the file is dropped, the file still has its
  row in the frame, all \<open>0\<close> (COSMIC mode) or all empty strings (gene mode).
\<close>

theorem sentinel_rows_discarded:
  assumes ok: "process_variants (Some listing) fv st pc upd = Inr M"
    and entry: "(name, f) \<in> set listing"
  shows "\<exists>df sub sid. read_table True f = Inr df \<and> drop_sentinel ''cosmic70'' df = Inr sub
           \<and> ''.'' \<notin> set (column_values sub ''cosmic70'')
           \<and> column_values sub (feature_column pc) = cosmic_values df (feature_column pc)
           \<and> sample_id st upd name = Inr sid
           \<and> (sid, marks pc df fv) \<in> set (rows M)
           \<and> (\<forall>j<length fv. marks pc df fv ! j =
                 (if \<exists>i. i < length (column_values df ''cosmic70'')
                         \<and> i < length (column_values df (feature_column pc))
                         \<and> column_values df ''cosmic70'' ! i \<noteq> ''.''
                         \<and> column_values df (feature_column pc) ! i = fv ! j
                  then present pc else absent pc))
           \<and> (set (column_values df ''cosmic70'') \<subseteq> {''.''}
                \<longrightarrow> (sid, replicate (length fv) (absent pc)) \<in> set (rows M))"
proof -
  from ok obtain rs where rs: "map (process_file fv st pc upd) listing = map Inr rs"
    and M: "M = \<lparr>columns = fv, rows = sort_key fst rs\<rparr>"
    unfolding process_variants_Inr by blast
  from rows_of_listing(1) [OF rs entry] obtain r
    where r: "r \<in> set rs" "process_file fv st pc upd (name, f) = Inr r" by blast
  from r(2) obtain df where df: "read_table True f = Inr df" "map_of df ''cosmic70'' \<noteq> None"
    "sample_id st upd name = Inr (fst r)" "snd r = marks pc df fv"
    unfolding process_file_Inr by auto
  from df(2) obtain sub where sub: "drop_sentinel ''cosmic70'' df = Inr sub"
    using drop_sentinel_Inr [of "''cosmic70''" df] by blast
  have "r = (fst r, marks pc df fv)"
    using df(4) by (cases r) simp
  with r(1) have row: "(fst r, marks pc df fv) \<in> set (rows M)"
    by (simp add: M)
  have cells: "\<forall>j<length fv. marks pc df fv ! j =
                 (if \<exists>i. i < length (column_values df ''cosmic70'')
                         \<and> i < length (column_values df (feature_column pc))
                         \<and> column_values df ''cosmic70'' ! i \<noteq> ''.''
                         \<and> column_values df (feature_column pc) ! i = fv ! j
                  then present pc else absent pc)"
    by (simp add: marks_nth cosmic_values_iff)
  have empty: "set (column_values df ''cosmic70'') \<subseteq> {''.''}
      \<longrightarrow> (fst r, replicate (length fv) (absent pc)) \<in> set (rows M)"
  proof
    assume "set (column_values df ''cosmic70'') \<subseteq> {''.''}"
    from marks_all_absent [OF this, of pc fv] row
    show "(fst r, replicate (length fv) (absent pc)) \<in> set (rows M)" by simp
  qed
  from row cells empty df(1,3) sub no_sentinel_left [OF sub]
  show ?thesis
    by (intro exI [of _ df] exI [of _ sub] exI [of _ "fst r"]) simp
qed

text \<open>
  The theorem on a directory of two files: one with \<^verbatim>\<open>KRAS\<close> in a row with a COSMIC
  annotation and \<^verbatim>\<open>TP53\<close> in a row without, one whose rows both lack the annotation.
\<close>

theorem sentinel_rows_discarded_witness:
  "process_variants
     (Some [(''S1_processed_variants.tsv.bz2'',
             Tsv [(''Chr'', [''12'', ''17'']), (''cosmic70'', [''ID=COSM521'', ''.'']),
                  (''Gene.refGene'', [''KRAS'', ''TP53''])]),
            (''S2_processed_variants.tsv.bz2'',
             Tsv [(''Chr'', [''12'', ''17'']), (''cosmic70'', [''.'', ''.'']),
                  (''Gene.refGene'', [''KRAS'', ''TP53''])])])
     [''KRAS'', ''TP53''] ''_processed_variants.tsv.bz2'' False None
   = Inr \<lparr>columns = [''KRAS'', ''TP53''],
          rows = [(''S1'', [Str ''MUT;'', Str '''']), (''S2'', [Str '''', Str ''''])]\<rparr>
   \<and> marks False [(''cosmic70'', [''ID=COSM521'', ''.'']), (''Gene.refGene'', [''KRAS'', ''TP53''])]
        [''KRAS'', ''TP53''] = [Str ''MUT;'', Str '''']
   \<and> (''S1'', marks False [(''cosmic70'', [''ID=COSM521'', ''.'']), (''Gene.refGene'', [''KRAS'', ''TP53''])]
                [''KRAS'', ''TP53''])
        \<in> set [(''S1'', [Str ''MUT;'', Str '''']), (''S2'', [Str '''', Str ''''])]
   \<and> set (column_values [(''cosmic70'', [''.'', ''.'']), (''Gene.refGene'', [''KRAS'', ''TP53''])] ''cosmic70'')
        \<subseteq> {''.''}
   \<and> (''S2'', replicate (length [''KRAS'', ''TP53'']) (absent False))
        \<in> set [(''S1'', [Str ''MUT;'', Str '''']), (''S2'', [Str '''', Str ''''])]"
proof -
  let ?f1 = "Tsv [(''Chr'', [''12'', ''17'']), (''cosmic70'', [''ID=COSM521'', ''.'']),
                  (''Gene.refGene'', [''KRAS'', ''TP53''])]"
  let ?f2 = "Tsv [(''Chr'', [''12'', ''17'']), (''cosmic70'', [''.'', ''.'']),
                  (''Gene.refGene'', [''KRAS'', ''TP53''])]"
  let ?dir = "[(''S1_processed_variants.tsv.bz2'', ?f1), (''S2_processed_variants.tsv.bz2'', ?f2)]"
  let ?M = "\<lparr>columns = [''KRAS'', ''TP53''],
          rows = [(''S1'', [Str ''MUT;'', Str '''']), (''S2'', [Str '''', Str ''''])]\<rparr>"
  have ok: "process_variants (Some ?dir) [''KRAS'', ''TP53''] ''_processed_variants.tsv.bz2'' False None
      = Inr ?M"
    by (simp add: builder_eval)
  have m1: "(''S1_processed_variants.tsv.bz2'', ?f1) \<in> set ?dir"
    and m2: "(''S2_processed_variants.tsv.bz2'', ?f2) \<in> set ?dir"
    by simp_all
  have all: "set (column_values [(''cosmic70'', [''.'', ''.'']), (''Gene.refGene'', [''KRAS'', ''TP53''])] ''cosmic70'')
        \<subseteq> {''.''}"
    by (simp add: column_values_def)
  have mk: "marks False [(''cosmic70'', [''ID=COSM521'', ''.'']), (''Gene.refGene'', [''KRAS'', ''TP53''])]
        [''KRAS'', ''TP53''] = [Str ''MUT;'', Str '''']"
    by (simp add: marks_def cosmic_values_def feature_column_def present_def absent_def)
  from sentinel_rows_discarded [OF ok m1]
  have "(''S1'', marks False [(''cosmic70'', [''ID=COSM521'', ''.'']), (''Gene.refGene'', [''KRAS'', ''TP53''])]
                [''KRAS'', ''TP53'']) \<in> set (rows ?M)"
    by (auto simp: sample_id_def str_replace_def)
  moreover from sentinel_rows_discarded [OF ok m2] all
  have "(''S2'', replicate (length [''KRAS'', ''TP53'']) (absent False)) \<in> set (rows ?M)"
    by (auto simp: sample_id_def str_replace_def)
  ultimately show ?thesis using ok all mk by simp
qed

subsection \<open>Failures\<close>

lemma process_file_Inl:
  "(\<exists>err. process_file fv st pc upd e = Inl err) \<longleftrightarrow>
     (\<exists>err. read_table True (snd e) = Inl err)
   \<or> (\<exists>df. read_table True (snd e) = Inr df
         \<and> (map_of df ''cosmic70'' = None \<or> fv \<noteq> [] \<and> map_of df (feature_column pc) = None))
   \<or> (\<exists>err. sample_id st upd (fst e) = Inl err)"
proof -
  have "(\<exists>err. process_file fv st pc upd e = Inl err) \<longleftrightarrow> \<not> (\<exists>r. process_file fv st pc upd e = Inr r)"
    by (cases "process_file fv st pc upd e") auto
  also have "\<dots> \<longleftrightarrow> \<not> (\<exists>df sid. read_table True (snd e) = Inr df \<and> map_of df ''cosmic70'' \<noteq> None
      \<and> (fv = [] \<or> map_of df (feature_column pc) \<noteq> None)
      \<and> sample_id st upd (fst e) = Inr sid)"
    unfolding process_file_Inr by auto
  also have "\<dots> \<longleftrightarrow> (\<exists>err. read_table True (snd e) = Inl err)
       \<or> (\<exists>df. read_table True (snd e) = Inr df
             \<and> (map_of df ''cosmic70'' = None \<or> fv \<noteq> [] \<and> map_of df (feature_column pc) = None))
       \<or> (\<exists>err. sample_id st upd (fst e) = Inl err)"
    by (cases "read_table True (snd e)"; cases "sample_id st upd (fst e)") auto
  finally show ?thesis .
qed

text \<open>
  Claim C7, as amended. Nothing in the builder catches an exception. A directory that
  does not exist makes it raise. On a directory that exists it raises exactly when some
  file of the listing does not parse, has no columns, lacks the column \<^verbatim>\<open>cosmic70\<close>, lacks
  the column of the mode while there is a feature to test, or has a prefix token that is
  not a key of the remapping table; no frame is returned then. An empty directory is not
  a failure: the builder returns the frame with the features as columns and no rows.
  In the notebook a builder invocation that raises ends the run with that exception; the
  files written before stay, and the file of the failed invocation is not written.
\<close>

theorem failures_abort:
  "process_variants None fv st pc upd = Inl FileNotFoundError
   \<and> ((\<exists>err. process_variants (Some listing) fv st pc upd = Inl err) \<longleftrightarrow>
        (\<exists>e\<in>set listing.
           (\<exists>err. read_table True (snd e) = Inl err)
         \<or> (\<exists>df. read_table True (snd e) = Inr df
               \<and> (map_of df ''cosmic70'' = None
                    \<or> fv \<noteq> [] \<and> map_of df (feature_column pc) = None))
         \<or> (\<exists>err. sample_id st upd (fst e) = Inl err)))
   \<and> process_variants (Some []) fv st pc upd = Inr \<lparr>columns = fv, rows = []\<rparr>
   \<and> (load_table (all_cosmic_variants inp) = Inr df \<and> paad_genes df = Inr genes
        \<and> process_variants (processed_vcfs inp) genes replicate_strip_text False None = Inl err
      \<longrightarrow> notebook order inp = ([], Some err))
   \<and> (load_table (all_cosmic_variants inp) = Inr df \<and> paad_genes df = Inr genes
        \<and> process_variants (processed_vcfs inp) genes replicate_strip_text False None = Inr R
        \<and> process_variants (processed_merged_vcfs inp) genes merged_strip_text False None = Inl err
      \<longrightarrow> notebook order inp = ([(''results/oncoprint_replicates.tsv'', R)], Some err))
   \<and> (load_table (all_cosmic_variants inp) = Inr df \<and> paad_genes df = Inr genes
        \<and> process_variants (processed_vcfs inp) genes replicate_strip_text False None = Inr R
        \<and> process_variants (processed_merged_vcfs inp) genes merged_strip_text False None = Inr G
        \<and> unique_cosmic_ids order df = Inr ids
        \<and> process_variants (processed_vcfs inp) ids replicate_strip_text True None = Inl err
      \<longrightarrow> notebook order inp
            = ([(''results/oncoprint_replicates.tsv'', R), (''results/oncoprint_merged.tsv'', G)],
               Some err))
   \<and> (load_table (all_cosmic_variants inp) = Inr df \<and> paad_genes df = Inr genes
        \<and> process_variants (processed_vcfs inp) genes replicate_strip_text False None = Inr R
        \<and> process_variants (processed_merged_vcfs inp) genes merged_strip_text False None = Inr G
        \<and> unique_cosmic_ids order df = Inr ids
        \<and> process_variants (processed_vcfs inp) ids replicate_strip_text True None = Inr C
        \<and> process_variants (processed_merged_vcfs inp) ids merged_strip_text True None = Inl err
      \<longrightarrow> notebook order inp
            = ([(''results/oncoprint_replicates.tsv'', R), (''results/oncoprint_merged.tsv'', G),
                (''results/cosmic_similarity_replicates.tsv'', C)], Some err))"
proof (intro conjI impI)
  show "process_variants None fv st pc upd = Inl FileNotFoundError"
    by (simp add: process_variants_def)
  show "process_variants (Some []) fv st pc upd = Inr \<lparr>columns = fv, rows = []\<rparr>"
    by (simp add: process_variants_def)
  show "(\<exists>err. process_variants (Some listing) fv st pc upd = Inl err) \<longleftrightarrow>
        (\<exists>e\<in>set listing.
           (\<exists>err. read_table True (snd e) = Inl err)
         \<or> (\<exists>df. read_table True (snd e) = Inr df
               \<and> (map_of df ''cosmic70'' = None
                    \<or> fv \<noteq> [] \<and> map_of df (feature_column pc) = None))
         \<or> (\<exists>err. sample_id st upd (fst e) = Inl err))"
    unfolding process_variants_Inl process_file_Inl ..
qed (simp_all add: notebook_def similarity_cells_def)

text \<open>
  The theorem on a replicate directory that holds a file which is not a table: the
  builder raises, and the notebook stops with nothing written.
\<close>

theorem failures_abort_witness:
  "read_table True Unparsable = Inl ParserError
   \<and> (\<exists>err. process_variants (Some [(''notes.txt'', Unparsable)]) [''KRAS'']
              ''_processed_variants.tsv.bz2'' False None = Inl err)
   \<and> load_table (Some (Tsv [(''Gene.refGene'', [''KRAS'']), (''cosmic70'', [''ID=COSM521''])]))
        = Inr [(''Gene.refGene'', [''KRAS'']), (''cosmic70'', [''ID=COSM521''])]
   \<and> paad_genes [(''Gene.refGene'', [''KRAS'']), (''cosmic70'', [''ID=COSM521''])]
        = Inr [''KRAS'', ''ATM'', ''RNF43'']
   \<and> process_variants (Some [(''notes.txt'', Unparsable)]) [''KRAS'', ''ATM'', ''RNF43'']
        replicate_strip_text False None = Inl ParserError
   \<and> notebook rev
        \<lparr>all_cosmic_variants = Some (Tsv [(''Gene.refGene'', [''KRAS'']), (''cosmic70'', [''ID=COSM521''])]),
         processed_vcfs = Some [(''notes.txt'', Unparsable)],
         processed_merged_vcfs = Some [],
         all_cosmic_prefiltered_variants = None\<rparr>
       = ([], Some ParserError)"
proof -
  let ?inp = "\<lparr>all_cosmic_variants = Some (Tsv [(''Gene.refGene'', [''KRAS'']), (''cosmic70'', [''ID=COSM521''])]),
         processed_vcfs = Some [(''notes.txt'', Unparsable)],
         processed_merged_vcfs = Some [],
         all_cosmic_prefiltered_variants = None\<rparr>"
  note inst = failures_abort [of "[''KRAS'']" "''_processed_variants.tsv.bz2''" False None
      "[(''notes.txt'', Unparsable)]" ?inp "[(''Gene.refGene'', [''KRAS'']), (''cosmic70'', [''ID=COSM521''])]"
      "[''KRAS'', ''ATM'', ''RNF43'']" ParserError rev]
  have bad: "\<exists>e\<in>set [(''notes.txt'', Unparsable)]. \<exists>err. read_table True (snd e) = Inl err"
    by simp
  have load: "load_table (all_cosmic_variants ?inp)
        = Inr [(''Gene.refGene'', [''KRAS'']), (''cosmic70'', [''ID=COSM521''])]"
    by (simp add: load_table_def)
  have genes: "paad_genes [(''Gene.refGene'', [''KRAS'']), (''cosmic70'', [''ID=COSM521''])]
        = Inr [''KRAS'', ''ATM'', ''RNF43'']"
    by (simp add: paad_genes_def column_def value_counts_def top_n_def)
  have fails: "process_variants (processed_vcfs ?inp) [''KRAS'', ''ATM'', ''RNF43'']
        replicate_strip_text False None = Inl ParserError"
    by (simp add: process_variants_def process_file_def)
  from inst bad have "\<exists>err. process_variants (Some [(''notes.txt'', Unparsable)]) [''KRAS'']
              ''_processed_variants.tsv.bz2'' False None = Inl err"
    by blast
  moreover from inst load genes fails have "notebook rev ?inp = ([], Some ParserError)"
    by blast
  ultimately show ?thesis using load genes fails by simp
qed

text \<open>
  Claim C7 as it is stated fails for an empty directory: the loop does not run, and the
  frame built from no rows is returned and written.
\<close>

theorem empty_directory_gives_empty_matrix:
  "process_variants (Some []) [''KRAS'', ''BRCA1''] ''_processed_variants.tsv.bz2'' False None
     = Inr \<lparr>columns = [''KRAS'', ''BRCA1''], rows = []\<rparr>"
  by (simp add: process_variants_def)

subsection \<open>Order of the directory listing\<close>

text \<open>
  Claim C10. Let two listings hold the same files, in any order, and let the identifiers
  derived from the file names be pairwise distinct. Then the builder returns a frame on
  one listing exactly when it returns the same frame on the other.
\<close>

theorem listing_order_irrelevant:
  assumes perm: "mset l1 = mset l2"
    and ids: "distinct (map (\<lambda>e. sample_id st upd (fst e)) l1)"
  shows "process_variants (Some l1) fv st pc upd = Inr M
     \<longleftrightarrow> process_variants (Some l2) fv st pc upd = Inr M"
proof -
  have step: "process_variants (Some b) fv st pc upd = Inr M"
    if ok: "process_variants (Some a) fv st pc upd = Inr M" and ab: "mset a = mset b"
      and d: "distinct (map (\<lambda>e. sample_id st upd (fst e)) a)"
    for a b :: "(string \<times> table_file) list"
  proof -
    from ok obtain rs where rs: "map (process_file fv st pc upd) a = map Inr rs"
      and M: "M = \<lparr>columns = fv, rows = sort_key fst rs\<rparr>"
      unfolding process_variants_Inr by blast
    define g where "g = (\<lambda>e. projr (process_file fv st pc upd e))"
    have g: "process_file fv st pc upd e = Inr (g e)" if "e \<in> set a" for e
      using rows_of_listing(1) [OF rs that] by (auto simp: g_def)
    have "map Inr rs = map (process_file fv st pc upd) a"
      by (rule rs [symmetric])
    also have "\<dots> = map Inr (map g a)"
      using g by simp
    finally have rsa: "rs = map g a"
      by (metis inj_Inr inj_map_eq_map)
    have "set b = set a" using ab by (metis mset_eq_setD)
    then have b: "map (process_file fv st pc upd) b = map Inr (map g b)"
      using g by simp
    have "map (\<lambda>e. sample_id st upd (fst e)) a = map (\<lambda>r. Inr (fst r)) rs"
      using listing_ids [OF rs] by (simp add: comp_def)
    with d have "distinct (map fst rs)" by (auto simp: distinct_map inj_on_def)
    then have inj: "inj_on fst (set rs)" by (simp add: distinct_map)
    have "mset rs = mset (map g b)" by (simp add: rsa ab)
    from sort_key_eq_sort_key [OF this inj]
    have "sort_key fst rs = sort_key fst (map g b)" .
    with b M show ?thesis unfolding process_variants_Inr by blast
  qed
  have "distinct (map (\<lambda>e. sample_id st upd (fst e)) l2)"
    using ids perm by (metis mset_eq_imp_distinct_iff mset_map)
  with step [of l1 l2] step [of l2 l1] perm ids show ?thesis by auto
qed

text \<open>The theorem on the two orders of a two-file directory.\<close>

theorem listing_order_irrelevant_witness:
  "mset [(''B_processed_variants.tsv.bz2'',
             Tsv [(''Chr'', [''17'']), (''cosmic70'', [''.'']), (''Gene.refGene'', [''TP53''])]),
            (''A_processed_variants.tsv.bz2'',
             Tsv [(''Chr'', [''12'']), (''cosmic70'', [''ID=COSM521'']), (''Gene.refGene'', [''KRAS''])])]
   = mset [(''A_processed_variants.tsv.bz2'',
             Tsv [(''Chr'', [''12'']), (''cosmic70'', [''ID=COSM521'']), (''Gene.refGene'', [''KRAS''])]),
           (''B_processed_variants.tsv.bz2'',
             Tsv [(''Chr'', [''17'']), (''cosmic70'', [''.'']), (''Gene.refGene'', [''TP53''])])]
   \<and> distinct (map (\<lambda>e. sample_id ''_processed_variants.tsv.bz2'' None (fst e))
        [(''B_processed_variants.tsv.bz2'',
             Tsv [(''Chr'', [''17'']), (''cosmic70'', [''.'']), (''Gene.refGene'', [''TP53''])]),
            (''A_processed_variants.tsv.bz2'',
             Tsv [(''Chr'', [''12'']), (''cosmic70'', [''ID=COSM521'']), (''Gene.refGene'', [''KRAS''])])])
   \<and> process_variants
       (Some [(''A_processed_variants.tsv.bz2'',
             Tsv [(''Chr'', [''12'']), (''cosmic70'', [''ID=COSM521'']), (''Gene.refGene'', [''KRAS''])]),
           (''B_processed_variants.tsv.bz2'',
             Tsv [(''Chr'', [''17'']), (''cosmic70'', [''.'']), (''Gene.refGene'', [''TP53''])])])
       [''KRAS'', ''BRCA1''] ''_processed_variants.tsv.bz2'' False None
     = Inr \<lparr>columns = [''KRAS'', ''BRCA1''],
          rows = [(''A'', [Str ''MUT;'', Str '''']), (''B'', [Str '''', Str ''''])]\<rparr>"
proof -
  let ?a = "(''A_processed_variants.tsv.bz2'',
             Tsv [(''Chr'', [''12'']), (''cosmic70'', [''ID=COSM521'']), (''Gene.refGene'', [''KRAS''])])"
  let ?b = "(''B_processed_variants.tsv.bz2'',
             Tsv [(''Chr'', [''17'']), (''cosmic70'', [''.'']), (''Gene.refGene'', [''TP53''])])"
  let ?M = "\<lparr>columns = [''KRAS'', ''BRCA1''],
          rows = [(''A'', [Str ''MUT;'', Str '''']), (''B'', [Str '''', Str ''''])]\<rparr>"
  have perm: "mset [?b, ?a] = mset [?a, ?b]" by simp
  have d: "distinct (map (\<lambda>e. sample_id ''_processed_variants.tsv.bz2'' None (fst e)) [?b, ?a])"
    by (simp add: sample_id_def str_replace_def)
  have ok: "process_variants (Some [?b, ?a]) [''KRAS'', ''BRCA1''] ''_processed_variants.tsv.bz2'' False None
      = Inr ?M"
    by (simp add: builder_eval)
  from listing_order_irrelevant [OF perm d, of "[''KRAS'', ''BRCA1'']" False ?M] ok
  have "process_variants (Some [?a, ?b]) [''KRAS'', ''BRCA1''] ''_processed_variants.tsv.bz2'' False None
      = Inr ?M" by blast
  with perm d show ?thesis by blast
qed

subsection \<open>Repeated runs\<close>

lemma iteration_order_py_set:
  assumes "iteration_order order"
  shows "distinct (py_set order xs)" and "set (py_set order xs) = set xs"
    and "mset (py_set order xs) = mset (remdups xs)"
proof -
  show m: "mset (py_set order xs) = mset (remdups xs)"
    using assms by (simp add: iteration_order_def py_set_def)
  show "distinct (py_set order xs)"
    using m by (metis distinct_remdups mset_eq_imp_distinct_iff)
  show "set (py_set order xs) = set xs"
    using m by (metis mset_eq_setD set_remdups)
qed

lemma same_cells:
  assumes ok: "process_variants (Some l) fv1 st pc upd = Inr M1"
    and same: "set fv2 = set fv1"
  shows "\<exists>M2. process_variants (Some l) fv2 st pc upd = Inr M2
        \<and> columns M1 = fv1 \<and> columns M2 = fv2
        \<and> map fst (rows M2) = map fst (rows M1)
        \<and> (\<forall>i j k. i < length (rows M1) \<and> j < length fv1 \<and> k < length fv2 \<and> fv1 ! j = fv2 ! k
              \<longrightarrow> snd (rows M2 ! i) ! k = snd (rows M1 ! i) ! j)"
proof -
  from ok obtain rs where rs: "map (process_file fv1 st pc upd) l = map Inr rs"
    and M1: "M1 = \<lparr>columns = fv1, rows = sort_key fst rs\<rparr>"
    unfolding process_variants_Inr by blast
  define tab where "tab = (\<lambda>e :: string \<times> table_file. projr (read_table True (snd e)))"
  define sid where "sid = (\<lambda>e :: string \<times> table_file. projr (sample_id st upd (fst e)))"
  define row where "row = (\<lambda>fv e. (sid e, marks pc (tab e) fv))"
  have empty: "fv2 = [] \<longleftrightarrow> fv1 = []" using same by (metis set_empty)
  have both: "process_file fv1 st pc upd e = Inr (row fv1 e)
      \<and> process_file fv2 st pc upd e = Inr (row fv2 e)" if "e \<in> set l" for e
  proof -
    from rows_of_listing(1) [OF rs that] obtain r where "process_file fv1 st pc upd e = Inr r"
      by blast
    then obtain df where df: "read_table True (snd e) = Inr df" "map_of df ''cosmic70'' \<noteq> None"
      "fv1 = [] \<or> map_of df (feature_column pc) \<noteq> None"
      "sample_id st upd (fst e) = Inr (fst r)"
      unfolding process_file_Inr by blast
    then have "tab e = df" "sid e = fst r" by (simp_all add: tab_def sid_def)
    with df empty show ?thesis
      unfolding process_file_Inr row_def by auto
  qed
  have "map Inr rs = map (process_file fv1 st pc upd) l" by (rule rs [symmetric])
  also have "\<dots> = map Inr (map (row fv1) l)" using both by simp
  finally have rs1: "rs = map (row fv1) l" by (metis inj_Inr inj_map_eq_map)
  have rs2: "map (process_file fv2 st pc upd) l = map Inr (map (row fv2) l)"
    using both by simp
  define M2 where "M2 = \<lparr>columns = fv2, rows = sort_key fst (map (row fv2) l)\<rparr>"
  have ok2: "process_variants (Some l) fv2 st pc upd = Inr M2"
    unfolding process_variants_Inr M2_def using rs2 by blast
  have r1: "rows M1 = map (row fv1) (sort_key sid l)"
    by (simp add: M1 rs1 sort_key_map row_def)
  have r2: "rows M2 = map (row fv2) (sort_key sid l)"
    by (simp add: M2_def sort_key_map row_def)
  have labels: "map fst (rows M2) = map fst (rows M1)"
    by (simp add: r1 r2 row_def)
  have cells: "snd (rows M2 ! i) ! k = snd (rows M1 ! i) ! j"
    if "i < length (rows M1)" "j < length fv1" "k < length fv2" "fv1 ! j = fv2 ! k" for i j k
  proof -
    from that(1) have i: "i < length (sort_key sid l)" by (simp add: r1)
    then show ?thesis
      using that(2-4) by (simp add: r1 r2 row_def marks_nth)
  qed
  from ok2 labels cells show ?thesis
    by (intro exI [of _ M2]) (simp add: M1 M2_def)
qed

text \<open>
  Claim C6, as amended. Take two runs of a COSMIC-ID invocation on the same directory,
  each with its own iteration order of the set of identifiers. If the first returns a
  frame, so does the second; the two frames have the same columns up to their order, the
  same sorted row labels in the same order, and the same cell for every row and every
  identifier. They are equal when the set is iterated in the same order in both runs,
  as they are for an invocation whose features are a list.
\<close>

theorem rerun_same_cells:
  assumes o1: "iteration_order o1" and o2: "iteration_order o2"
    and ok: "process_variants dir (py_set o1 ids) st pc upd = Inr M1"
  shows "\<exists>M2. process_variants dir (py_set o2 ids) st pc upd = Inr M2
        \<and> mset (columns M2) = mset (columns M1)
        \<and> sorted (map fst (rows M1))
        \<and> map fst (rows M2) = map fst (rows M1)
        \<and> (\<forall>i j k. i < length (rows M1) \<and> j < length (columns M1) \<and> k < length (columns M2)
                \<and> columns M1 ! j = columns M2 ! k
              \<longrightarrow> snd (rows M2 ! i) ! k = snd (rows M1 ! i) ! j)
        \<and> (py_set o2 ids = py_set o1 ids \<longrightarrow> M2 = M1)"
proof -
  from ok obtain l where dir: "dir = Some l"
    by (cases dir) (auto simp: process_variants_def)
  have same: "set (py_set o2 ids) = set (py_set o1 ids)"
    by (simp add: iteration_order_py_set(2) [OF o1] iteration_order_py_set(2) [OF o2])
  have m: "mset (py_set o2 ids) = mset (py_set o1 ids)"
    by (simp add: iteration_order_py_set(3) [OF o1] iteration_order_py_set(3) [OF o2])
  from same_cells [OF ok [unfolded dir] same] obtain M2
    where M2: "process_variants (Some l) (py_set o2 ids) st pc upd = Inr M2"
      and c1: "columns M1 = py_set o1 ids" and c2: "columns M2 = py_set o2 ids"
      and labels: "map fst (rows M2) = map fst (rows M1)"
      and cells: "\<forall>i j k. i < length (rows M1) \<and> j < length (py_set o1 ids)
                \<and> k < length (py_set o2 ids) \<and> py_set o1 ids ! j = py_set o2 ids ! k
              \<longrightarrow> snd (rows M2 ! i) ! k = snd (rows M1 ! i) ! j"
    by blast
  have srt: "sorted (map fst (rows M1))"
  proof -
    from ok [unfolded dir] obtain rs
      where "M1 = \<lparr>columns = py_set o1 ids, rows = sort_key fst rs\<rparr>"
      unfolding process_variants_Inr by blast
    then show ?thesis by simp
  qed
  have "M2 = M1" if "py_set o2 ids = py_set o1 ids"
    using M2 ok that by (simp add: dir)
  with M2 c1 c2 labels cells m srt show ?thesis
    by (intro exI [of _ M2]) (simp add: dir)
qed

text \<open>The theorem on a one-file directory and the two orders of a two-element set.\<close>

theorem rerun_same_cells_witness:
  "iteration_order id \<and> iteration_order rev
   \<and> process_variants
       (Some [(''S1_001_processed_variants.tsv.bz2'',
               Tsv [(''Chr'', [''12'']), (''cosmic70'', [''ID=COSM521'']), (''Gene.refGene'', [''KRAS''])])])
       (py_set id [''ID=COSM521'', ''ID=COSM10648'', ''ID=COSM521'']) replicate_strip_text True None
     = Inr \<lparr>columns = [''ID=COSM10648'', ''ID=COSM521''], rows = [(''S1'', [Num 0, Num 1])]\<rparr>
   \<and> (\<exists>M2. process_variants
       (Some [(''S1_001_processed_variants.tsv.bz2'',
               Tsv [(''Chr'', [''12'']), (''cosmic70'', [''ID=COSM521'']), (''Gene.refGene'', [''KRAS''])])])
       (py_set rev [''ID=COSM521'', ''ID=COSM10648'', ''ID=COSM521'']) replicate_strip_text True None
         = Inr M2
       \<and> mset (columns M2) = mset [''ID=COSM10648'', ''ID=COSM521'']
       \<and> map fst (rows M2) = [''S1''])"
proof -
  have 1: "iteration_order id" and 2: "iteration_order rev"
    by (simp_all add: iteration_order_def)
  have ok: "process_variants
       (Some [(''S1_001_processed_variants.tsv.bz2'',
               Tsv [(''Chr'', [''12'']), (''cosmic70'', [''ID=COSM521'']), (''Gene.refGene'', [''KRAS''])])])
       (py_set id [''ID=COSM521'', ''ID=COSM10648'', ''ID=COSM521'']) replicate_strip_text True None
     = Inr \<lparr>columns = [''ID=COSM10648'', ''ID=COSM521''], rows = [(''S1'', [Num 0, Num 1])]\<rparr>"
    by (simp add: builder_eval py_set_def replicate_strip_text_def)
  from rerun_same_cells [OF 1 2 ok] 1 2 ok show ?thesis
    by auto
qed

text \<open>
  Claim C6 as it is stated fails: on the same inputs, two runs of the notebook that
  iterate the set of COSMIC identifiers in different orders write
  \<^verbatim>\<open>cosmic_similarity_replicates.tsv\<close> with the columns in different orders.
\<close>

theorem column_order_follows_set_order:
  "iteration_order id \<and> iteration_order rev
   \<and> map_of (fst (notebook id
        \<lparr>all_cosmic_variants =
           Some (Tsv [(''Gene.refGene'', [''KRAS'', ''TP53'']),
                      (''cosmic70'', [''ID=COSM521'', ''ID=COSM10648''])]),
         processed_vcfs =
           Some [(''S1_001_processed_variants.tsv.bz2'',
                  Tsv [(''Chr'', [''12'']), (''cosmic70'', [''ID=COSM521'']), (''Gene.refGene'', [''KRAS''])])],
         processed_merged_vcfs =
           Some [(''S1_processed_variants.tsv.bz2'',
                  Tsv [(''Chr'', [''12'']), (''cosmic70'', [''ID=COSM521'']), (''Gene.refGene'', [''KRAS''])])],
         all_cosmic_prefiltered_variants = None\<rparr>))
       ''results/cosmic_similarity_replicates.tsv''
      = Some \<lparr>columns = [''ID=COSM521'', ''ID=COSM10648''], rows = [(''S1'', [Num 1, Num 0])]\<rparr>
   \<and> map_of (fst (notebook rev
        \<lparr>all_cosmic_variants =
           Some (Tsv [(''Gene.refGene'', [''KRAS'', ''TP53'']),
                      (''cosmic70'', [''ID=COSM521'', ''ID=COSM10648''])]),
         processed_vcfs =
           Some [(''S1_001_processed_variants.tsv.bz2'',
                  Tsv [(''Chr'', [''12'']), (''cosmic70'', [''ID=COSM521'']), (''Gene.refGene'', [''KRAS''])])],
         processed_merged_vcfs =
           Some [(''S1_processed_variants.tsv.bz2'',
                  Tsv [(''Chr'', [''12'']), (''cosmic70'', [''ID=COSM521'']), (''Gene.refGene'', [''KRAS''])])],
         all_cosmic_prefiltered_variants = None\<rparr>))
       ''results/cosmic_similarity_replicates.tsv''
      = Some \<lparr>columns = [''ID=COSM10648'', ''ID=COSM521''], rows = [(''S1'', [Num 0, Num 1])]\<rparr>"
proof -
  have 1: "iteration_order id" "iteration_order rev"
    by (simp_all add: iteration_order_def)
  let ?all = "[(''Gene.refGene'', [''KRAS'', ''TP53'']), (''cosmic70'', [''ID=COSM521'', ''ID=COSM10648''])]"
  have genes: "paad_genes ?all = Inr [''KRAS'', ''TP53'', ''ATM'', ''RNF43'']"
    by (simp add: paad_genes_def column_def value_counts_def top_n_def)
  have ids: "unique_cosmic_ids id ?all = Inr [''ID=COSM521'', ''ID=COSM10648'']"
    "unique_cosmic_ids rev ?all = Inr [''ID=COSM10648'', ''ID=COSM521'']"
    by (simp_all add: unique_cosmic_ids_def column_def py_set_def)
  show ?thesis
    using 1 by (simp add: notebook_def similarity_cells_def prefiltered_cells_def load_table_def
      genes ids builder_eval replicate_strip_text_def merged_strip_text_def)
qed

subsection \<open>The gene list\<close>

lemma value_counts_props:
  "distinct (value_counts xs)" "set (value_counts xs) = set xs"
  "length (value_counts xs) = card (set xs)"
  "sorted (map (\<lambda>v. - int (count_list xs v)) (value_counts xs))"
  by (simp_all add: value_counts_def length_remdups_card_conv)

text \<open>
  Claim C8, as amended. The gene list is the 50 most frequent gene names of the
  aggregate table (all of them when there are fewer), each once, in descending order of
  frequency, followed by \<^verbatim>\<open>ATM\<close> and \<^verbatim>\<open>RNF43\<close>. No gene appears twice in the list exactly
  when neither \<^verbatim>\<open>ATM\<close> nor \<^verbatim>\<open>RNF43\<close> is among the most frequent ones.
\<close>

theorem paad_genes_top:
  assumes ok: "paad_genes cosmic_all_df = Inr gs"
  shows "\<exists>top. gs = top @ [''ATM'', ''RNF43'']
       \<and> length top = min 50 (card (set (column_values cosmic_all_df ''Gene.refGene'')))
       \<and> distinct top
       \<and> set top \<subseteq> set (column_values cosmic_all_df ''Gene.refGene'')
       \<and> (\<forall>i j. i < j \<and> j < length top
            \<longrightarrow> count_list (column_values cosmic_all_df ''Gene.refGene'') (top ! j)
                  \<le> count_list (column_values cosmic_all_df ''Gene.refGene'') (top ! i))
       \<and> (\<forall>g\<in>set (column_values cosmic_all_df ''Gene.refGene'') - set top. \<forall>t\<in>set top.
             count_list (column_values cosmic_all_df ''Gene.refGene'') g
               \<le> count_list (column_values cosmic_all_df ''Gene.refGene'') t)
       \<and> (distinct gs \<longleftrightarrow> ''ATM'' \<notin> set top \<and> ''RNF43'' \<notin> set top)"
proof -
  define genes where "genes = column_values cosmic_all_df ''Gene.refGene''"
  define vc where "vc = value_counts genes"
  define key where "key = (\<lambda>v. - int (count_list genes v))"
  define top where "top = take 50 vc"
  from ok have gs: "gs = top @ [''ATM'', ''RNF43'']"
    by (auto simp: paad_genes_def column_def column_values_def genes_def vc_def top_def top_n_def
        split: option.splits)
  have srt: "sorted (map key vc)" and dvc: "distinct vc" and svc: "set vc = set genes"
    and lvc: "length vc = card (set genes)"
    unfolding vc_def key_def by (rule value_counts_props)+
  have 1: "length top = min 50 (card (set genes))"
    by (simp add: top_def lvc min.commute)
  have 2: "distinct top" by (simp add: top_def dvc)
  have 3: "set top \<subseteq> set genes"
    using set_take_subset [of 50 vc] by (simp add: top_def svc)
  have 4: "count_list genes (top ! j) \<le> count_list genes (top ! i)"
    if "i < j" "j < length top" for i j
  proof -
    from that have "j < length vc" "i \<le> j" by (simp_all add: top_def)
    then have "map key vc ! i \<le> map key vc ! j"
      using srt by (simp add: sorted_nth_mono del: nth_map)
    moreover have "top ! i = vc ! i" "top ! j = vc ! j"
      using that by (simp_all add: top_def)
    ultimately show ?thesis using that \<open>j < length vc\<close> by (simp add: key_def)
  qed
  have 5: "count_list genes g \<le> count_list genes t"
    if "g \<in> set genes - set top" "t \<in> set top" for g t
  proof -
    have split: "vc = top @ drop 50 vc" by (simp add: top_def)
    from that svc have "g \<in> set vc" "g \<notin> set top" by auto
    then have "g \<in> set (drop 50 vc)" using split by (metis Un_iff set_append)
    moreover have "sorted (map key top @ map key (drop 50 vc))"
      using srt split by (metis map_append)
    ultimately have "key t \<le> key g"
      using that(2) by (auto simp: sorted_append)
    then show ?thesis by (simp add: key_def)
  qed
  have 6: "distinct gs \<longleftrightarrow> ''ATM'' \<notin> set top \<and> ''RNF43'' \<notin> set top"
    using 2 by (auto simp: gs)
  from gs 1 2 3 4 5 6 show ?thesis
    unfolding genes_def [symmetric] by blast
qed

text \<open>The theorem on a table with \<^verbatim>\<open>KRAS\<close> twice and \<^verbatim>\<open>TP53\<close> once.\<close>

theorem paad_genes_top_witness:
  "paad_genes [(''Gene.refGene'', [''TP53'', ''KRAS'', ''KRAS'']), (''cosmic70'', [''ID=COSM10648'', ''ID=COSM521'', ''ID=COSM521''])]
     = Inr [''KRAS'', ''TP53'', ''ATM'', ''RNF43'']
   \<and> distinct [''KRAS'', ''TP53'', ''ATM'', ''RNF43'']
   \<and> count_list (column_values [(''Gene.refGene'', [''TP53'', ''KRAS'', ''KRAS'']), (''cosmic70'', [''ID=COSM10648'', ''ID=COSM521'', ''ID=COSM521''])] ''Gene.refGene'') ''TP53''
      \<le> count_list (column_values [(''Gene.refGene'', [''TP53'', ''KRAS'', ''KRAS'']), (''cosmic70'', [''ID=COSM10648'', ''ID=COSM521'', ''ID=COSM521''])] ''Gene.refGene'') ''KRAS''"
proof -
  let ?df = "[(''Gene.refGene'', [''TP53'', ''KRAS'', ''KRAS'']), (''cosmic70'', [''ID=COSM10648'', ''ID=COSM521'', ''ID=COSM521''])]"
  have ok: "paad_genes ?df = Inr [''KRAS'', ''TP53'', ''ATM'', ''RNF43'']"
    by (simp add: paad_genes_def column_def value_counts_def top_n_def)
  from paad_genes_top [OF ok] obtain top where top: "[''KRAS'', ''TP53'', ''ATM'', ''RNF43''] = top @ [''ATM'', ''RNF43'']"
    and ord: "\<forall>i j. i < j \<and> j < length top
            \<longrightarrow> count_list (column_values ?df ''Gene.refGene'') (top ! j)
                  \<le> count_list (column_values ?df ''Gene.refGene'') (top ! i)"
    and d: "distinct [''KRAS'', ''TP53'', ''ATM'', ''RNF43''] \<longleftrightarrow> ''ATM'' \<notin> set top \<and> ''RNF43'' \<notin> set top"
    by blast
  from top have t: "top = [''KRAS'', ''TP53'']" by (simp add: append_eq_Cons_conv Cons_eq_append_conv)
  from ord [rule_format, of 0 1] have "count_list (column_values ?df ''Gene.refGene'') ''TP53''
      \<le> count_list (column_values ?df ''Gene.refGene'') ''KRAS''"
    by (simp add: t)
  with ok d t show ?thesis by simp
qed

text \<open>
  Claim C8 as it is stated fails: when \<^verbatim>\<open>ATM\<close> is among the most frequent genes, the
  appended \<^verbatim>\<open>ATM\<close> is a second occurrence.
\<close>

theorem allow_list_gene_repeated:
  "paad_genes [(''Gene.refGene'', [''ATM'', ''KRAS'', ''ATM'']), (''cosmic70'', [''ID=COSM21924'', ''ID=COSM521'', ''ID=COSM21924''])]
     = Inr [''ATM'', ''KRAS'', ''ATM'', ''RNF43'']
   \<and> \<not> distinct [''ATM'', ''KRAS'', ''ATM'', ''RNF43'']"
  by (simp add: paad_genes_def column_def value_counts_def top_n_def)

subsection \<open>Amino-acid changes per cohort identifier\<close>

lemma masked_self: "map snd (filter fst (zip (map P cs) cs)) = filter P cs"
  by (induction cs) auto

lemma filter_fst_zip:
  "length cs = length fs \<Longrightarrow> filter P cs = map fst (filter (\<lambda>(a, s). P a) (zip cs fs))"
  by (induction cs fs rule: list_induct2) auto

lemma group_members:
  "x \<in> set (map snd (filter (\<lambda>(f, c). f = s) (zip (map snd ps) (map fst ps)))) \<longleftrightarrow> (x, s) \<in> set ps"
  by (induction ps) auto

lemma consensus_loop_Inr:
  assumes "map_of df ''final_id'' = Some fs" and "map_of df ''AAChange.refGene'' = Some cs"
    and "consensus_loop df um sids sim ids = Inr (sim', ids')"
  shows "sim' = sim @ map (\<lambda>s. map (\<lambda>m. if m \<in> set (map snd (filter (\<lambda>(f, c). f = s) (zip fs cs)))
                                     then Num 1 else Num 0) um) sids
       \<and> ids' = ids @ sids"
  using assms(3)
proof (induction sids arbitrary: sim ids)
  case Nil
  then show ?case by simp
next
  case (Cons s sids)
  define sub where "sub = select_rows (map (\<lambda>x. x = s) fs) df"
  have q: "query_eq ''final_id'' s df = Inr sub"
    by (simp add: query_eq_def assms(1) sub_def)
  have col: "map_of sub ''AAChange.refGene'' = Some (map snd (filter (\<lambda>(f, c). f = s) (zip fs cs)))"
    by (simp add: sub_def map_of_select_rows assms(2) masked_values)
  obtain cls where cls: "membership sub ''AAChange.refGene'' (Num 1) (Num 0) um = Inr cls"
    and rest: "consensus_loop df um sids (sim @ [cls]) (ids @ [s]) = Inr (sim', ids')"
    using Cons.prems by (auto simp: q split: sum.splits)
  from cls have "cls = map (\<lambda>m. if m \<in> set (map snd (filter (\<lambda>(f, c). f = s) (zip fs cs)))
                                     then Num 1 else Num 0) um"
    unfolding membership_Inr by (simp add: col)
  with Cons.IH [OF rest] show ?case by simp
qed

text \<open>
  Claim C9. Let the pass over the prefiltered table return a frame, for a table whose
  columns \<^verbatim>\<open>AAChange.refGene\<close> and \<^verbatim>\<open>final_id\<close> have the same number of rows (as the
  columns of a pandas frame have). Restrict the table to the rows whose amino-acid
  change is not \<^verbatim>\<open>'.'\<close>. Then the columns of the frame are the distinct amino-acid changes
  of the restricted table, each once; the row labels are the distinct values of
  \<^verbatim>\<open>final_id\<close> in the restricted table, each once; and the cell of a row and a change is
  \<open>1\<close> if a restricted row has this change and this \<^verbatim>\<open>final_id\<close>, and \<open>0\<close> otherwise.
\<close>

theorem consensus_groups:
  assumes ord: "iteration_order order"
    and ok: "consensus_similarity order cosmic_prefiltered_df = Inr M"
    and rect: "length (column_values cosmic_prefiltered_df ''AAChange.refGene'')
             = length (column_values cosmic_prefiltered_df ''final_id'')"
  shows "distinct (columns M)
       \<and> set (columns M) = fst ` set (restricted_pairs
             (column_values cosmic_prefiltered_df ''AAChange.refGene'')
             (column_values cosmic_prefiltered_df ''final_id''))
       \<and> distinct (map fst (rows M))
       \<and> set (map fst (rows M)) = snd ` set (restricted_pairs
             (column_values cosmic_prefiltered_df ''AAChange.refGene'')
             (column_values cosmic_prefiltered_df ''final_id''))
       \<and> (\<forall>r\<in>set (rows M). snd r =
             map (\<lambda>m. if (m, fst r) \<in> set (restricted_pairs
                            (column_values cosmic_prefiltered_df ''AAChange.refGene'')
                            (column_values cosmic_prefiltered_df ''final_id''))
                      then Num 1 else Num 0) (columns M))"
proof -
  define df where "df = cosmic_prefiltered_df"
  define changes where "changes = column_values df ''AAChange.refGene''"
  define final_ids where "final_ids = column_values df ''final_id''"
  define ps where "ps = restricted_pairs changes final_ids"
  define restricted where "restricted = select_rows (map (\<lambda>v. v \<noteq> ''.'') changes) df"
  from ok obtain cs0 where c0: "map_of df ''AAChange.refGene'' = Some cs0"
    by (auto simp: consensus_similarity_def drop_sentinel_def column_def df_def
        split: sum.splits option.splits)
  then have changes: "map_of df ''AAChange.refGene'' = Some changes"
    by (simp add: changes_def column_values_def)
  then have ds: "drop_sentinel ''AAChange.refGene'' df = Inr restricted"
    by (simp add: drop_sentinel_def column_def restricted_def)
  have rc: "map_of restricted ''AAChange.refGene'' = Some (filter (\<lambda>v. v \<noteq> ''.'') changes)"
    by (simp add: restricted_def map_of_select_rows changes masked_self)
  from ok obtain fs0 where "map_of restricted ''final_id'' = Some fs0"
    by (auto simp: consensus_similarity_def ds column_def df_def [symmetric]
        split: sum.splits option.splits)
  then obtain fs1 where "map_of df ''final_id'' = Some fs1"
    by (auto simp: restricted_def map_of_select_rows)
  then have fids: "map_of df ''final_id'' = Some final_ids"
    by (simp add: final_ids_def column_values_def)
  have len: "length changes = length final_ids"
    using rect by (simp add: changes_def final_ids_def df_def)
  have cs': "filter (\<lambda>v. v \<noteq> ''.'') changes = map fst ps"
    unfolding ps_def restricted_pairs_def by (rule filter_fst_zip [OF len])
  have rf: "map_of restricted ''final_id'' = Some (map snd ps)"
    by (simp add: restricted_def map_of_select_rows fids masked_values ps_def restricted_pairs_def)
  have rc': "map_of restricted ''AAChange.refGene'' = Some (map fst ps)"
    using rc cs' by simp
  from ok obtain sim ids
    where loop: "consensus_loop restricted (py_set order (map fst ps)) (py_set order (map snd ps)) [] []
        = Inr (sim, ids)"
      and M: "M = \<lparr>columns = py_set order (map fst ps), rows = zip ids sim\<rparr>"
    by (auto simp: consensus_similarity_def ds column_def rc' rf df_def [symmetric] split: sum.splits)
  from consensus_loop_Inr [OF rf rc' loop, unfolded group_members]
  have ids: "ids = py_set order (map snd ps)"
    and sim: "sim = map (\<lambda>s. map (\<lambda>m. if (m, s) \<in> set ps then Num 1 else Num 0)
                          (py_set order (map fst ps))) (py_set order (map snd ps))"
    by simp_all
  have rows: "rows M = map (\<lambda>s. (s, map (\<lambda>m. if (m, s) \<in> set ps then Num 1 else Num 0)
                          (py_set order (map fst ps)))) (py_set order (map snd ps))"
    by (simp add: M ids sim zip_map2 zip_same_conv_map)
  have cols: "columns M = py_set order (map fst ps)"
    by (simp add: M)
  have "distinct (columns M)" "set (columns M) = fst ` set ps"
    by (simp_all add: cols iteration_order_py_set [OF ord])
  moreover have "map fst (rows M) = py_set order (map snd ps)"
    by (simp add: rows comp_def)
  then have "distinct (map fst (rows M))" "set (map fst (rows M)) = snd ` set ps"
    by (simp_all add: iteration_order_py_set [OF ord])
  moreover have "\<forall>r\<in>set (rows M). snd r =
      map (\<lambda>m. if (m, fst r) \<in> set ps then Num 1 else Num 0) (columns M)"
    by (auto simp: rows cols)
  ultimately show ?thesis
    unfolding ps_def changes_def final_ids_def df_def by blast
qed

text \<open>The theorem on a table of four rows, one of them without an amino-acid change.\<close>

theorem consensus_groups_witness:
  "iteration_order rev
   \<and> consensus_similarity rev
       [(''Gene.refGene'', [''KRAS'', ''KRAS'', ''TP53'', ''TTN'']),
        (''AAChange.refGene'', [''KRAS:p.G12D'', ''KRAS:p.G12V'', ''TP53:p.R175H'', ''.'']),
        (''final_id'', [''008-F0'', ''018-F5'', ''008-F0'', ''030-F0''])]
     = Inr \<lparr>columns = [''TP53:p.R175H'', ''KRAS:p.G12V'', ''KRAS:p.G12D''],
            rows = [(''008-F0'', [Num 1, Num 0, Num 1]), (''018-F5'', [Num 0, Num 1, Num 0])]\<rparr>
   \<and> restricted_pairs [''KRAS:p.G12D'', ''KRAS:p.G12V'', ''TP53:p.R175H'', ''.'']
        [''008-F0'', ''018-F5'', ''008-F0'', ''030-F0'']
     = [(''KRAS:p.G12D'', ''008-F0''), (''KRAS:p.G12V'', ''018-F5''), (''TP53:p.R175H'', ''008-F0'')]
   \<and> set (map fst [(''008-F0'', [Num 1, Num 0, Num 1]), (''018-F5'', [Num 0, Num 1, Num 0])])
     = snd ` set (restricted_pairs [''KRAS:p.G12D'', ''KRAS:p.G12V'', ''TP53:p.R175H'', ''.'']
        [''008-F0'', ''018-F5'', ''008-F0'', ''030-F0''])"
proof -
  let ?df = "[(''Gene.refGene'', [''KRAS'', ''KRAS'', ''TP53'', ''TTN'']),
        (''AAChange.refGene'', [''KRAS:p.G12D'', ''KRAS:p.G12V'', ''TP53:p.R175H'', ''.'']),
        (''final_id'', [''008-F0'', ''018-F5'', ''008-F0'', ''030-F0''])]"
  let ?M = "\<lparr>columns = [''TP53:p.R175H'', ''KRAS:p.G12V'', ''KRAS:p.G12D''],
            rows = [(''008-F0'', [Num 1, Num 0, Num 1]), (''018-F5'', [Num 0, Num 1, Num 0])]\<rparr>"
  have ord: "iteration_order rev" by (simp add: iteration_order_def)
  have ok: "consensus_similarity rev ?df = Inr ?M"
    by (simp add: consensus_similarity_def drop_sentinel_def column_def select_rows_def py_set_def
        query_eq_def)
  have rect: "length (column_values ?df ''AAChange.refGene'') = length (column_values ?df ''final_id'')"
    by (simp add: column_values_def)
  have cv: "column_values ?df ''AAChange.refGene'' = [''KRAS:p.G12D'', ''KRAS:p.G12V'', ''TP53:p.R175H'', ''.'']"
    "column_values ?df ''final_id'' = [''008-F0'', ''018-F5'', ''008-F0'', ''030-F0'']"
    by (simp_all add: column_values_def)
  from consensus_groups [OF ord ok rect]
  have "set (map fst (rows ?M)) = snd ` set (restricted_pairs
             (column_values ?df ''AAChange.refGene'') (column_values ?df ''final_id''))"
    by blast
  then have "set (map fst [(''008-F0'', [Num 1, Num 0, Num 1]), (''018-F5'', [Num 0, Num 1, Num 0])])
     = snd ` set (restricted_pairs [''KRAS:p.G12D'', ''KRAS:p.G12V'', ''TP53:p.R175H'', ''.'']
        [''008-F0'', ''018-F5'', ''008-F0'', ''030-F0''])"
    unfolding cv by simp
  moreover have "restricted_pairs [''KRAS:p.G12D'', ''KRAS:p.G12V'', ''TP53:p.R175H'', ''.'']
        [''008-F0'', ''018-F5'', ''008-F0'', ''030-F0'']
     = [(''KRAS:p.G12D'', ''008-F0''), (''KRAS:p.G12V'', ''018-F5''), (''TP53:p.R175H'', ''008-F0'')]"
    by (simp add: restricted_pairs_def)
  ultimately show ?thesis using ord ok by blast
qed

end
